theory Spec2Isabelle
  imports Main "HOL-Library.Sublist"
begin

section \<open>Python strings\<close>

text \<open>
  A Python \<open>str\<close> is a sequence of Unicode code points, so it is modelled as a list of
  natural numbers. ASCII literals of the source are written with \<open>u\<close>; the Hangul
  literals are spelled out as code points.
\<close>

type_synonym pystr = "nat list"

definition ord :: "char \<Rightarrow> nat" where
  "ord c = of_char c"

definition u :: "string \<Rightarrow> pystr" where
  "u s = map ord s"

text \<open>
  Character classes of the Unicode database (version 14.0.0, the one of CPython 3.11).
  Every block of decimal digits is ten consecutive code points with the values 0 to 9;
  \<open>decimal_blocks\<close> lists the first code point of each block. These are the characters
  matched by the regular expression class \<open>\d\<close> and converted by \<open>int()\<close>.
\<close>

definition decimal_blocks :: "nat list" where
  "decimal_blocks =
    [48, 1632, 1776, 1984, 2406, 2534, 2662, 2790, 2918, 3046, 3174, 3302, 3430, 3558,
     3664, 3792, 3872, 4160, 4240, 6112, 6160, 6470, 6608, 6784, 6800, 6992, 7088, 7232,
     7248, 42528, 43216, 43264, 43472, 43504, 43600, 44016, 65296, 66720, 68912, 69734,
     69872, 69942, 70096, 70384, 70736, 70864, 71248, 71360, 71472, 71904, 72016, 72784,
     73040, 73120, 92768, 92864, 93008, 120782, 120792, 120802, 120812, 120822, 123200,
     123632, 125264, 130032]"

definition decimal_value :: "nat \<Rightarrow> nat option" where
  "decimal_value c =
     map_option (\<lambda>b. c - b) (find (\<lambda>b. b \<le> c \<and> c < b + 10) decimal_blocks)"

definition isdecimal_char :: "nat \<Rightarrow> bool" where
  "isdecimal_char c = (decimal_value c \<noteq> None)"

text \<open>
  \<open>str.isdigit\<close> accepts the decimal digits and also the characters whose numeric type
  is "digit" (superscripts, circled digits and the like), listed here as closed ranges.
\<close>

definition other_digit_ranges :: "(nat \<times> nat) list" where
  "other_digit_ranges =
    [(178, 179), (185, 185), (4969, 4977), (6618, 6618), (8304, 8304), (8308, 8313),
     (8320, 8329), (9312, 9320), (9332, 9340), (9352, 9360), (9450, 9450), (9461, 9469),
     (9471, 9471), (10102, 10110), (10112, 10120), (10122, 10130), (68160, 68163),
     (69216, 69224), (69714, 69722), (127232, 127242)]"

definition in_ranges :: "(nat \<times> nat) list \<Rightarrow> nat \<Rightarrow> bool" where
  "in_ranges rs c = list_ex (\<lambda>(lo, hi). lo \<le> c \<and> c \<le> hi) rs"

definition isdigit_char :: "nat \<Rightarrow> bool" where
  "isdigit_char c = (isdecimal_char c \<or> in_ranges other_digit_ranges c)"

text \<open>\<open>s.isdigit()\<close>: every character is a digit and there is at least one.\<close>

definition isdigit :: "pystr \<Rightarrow> bool" where
  "isdigit s = (s \<noteq> [] \<and> list_all isdigit_char s)"

text \<open>Whitespace as \<open>str.isspace\<close>, \<open>str.strip\<close> and the class \<open>\s\<close> see it.\<close>

definition space_ranges :: "(nat \<times> nat) list" where
  "space_ranges =
    [(9, 13), (28, 32), (133, 133), (160, 160), (5760, 5760), (8192, 8202), (8232, 8233),
     (8239, 8239), (8287, 8287), (12288, 12288)]"

definition isspace_char :: "nat \<Rightarrow> bool" where
  "isspace_char c = in_ranges space_ranges c"

definition strip :: "pystr \<Rightarrow> pystr" where
  "strip s = rev (dropWhile isspace_char (rev (dropWhile isspace_char s)))"

text \<open>
  \<open>int(s)\<close> on a string: surrounding whitespace is ignored, the rest must be a
  non-empty run of decimal digits (signs and underscores never reach it in this program).
\<close>

fun digits_value :: "nat \<Rightarrow> pystr \<Rightarrow> nat option" where
  "digits_value acc [] = Some acc"
| "digits_value acc (c # cs) =
     (case decimal_value c of
        None \<Rightarrow> None
      | Some v \<Rightarrow> digits_value (10 * acc + v) cs)"

definition py_int :: "pystr \<Rightarrow> nat option" where
  "py_int s = (if strip s = [] then None else digits_value 0 (strip s))"

text \<open>\<open>needle in haystack\<close> on strings is the contiguous-substring test.\<close>

definition contains :: "pystr \<Rightarrow> pystr \<Rightarrow> bool" where
  "contains haystack needle = sublist needle haystack"

section \<open>Regular expressions with backtracking\<close>

text \<open>
  The fragment of Python's \<open>re\<close> that the program and \<open>_strptime\<close> use: character
  classes, greedy repetition of a class, sequence, ordered alternation, named groups.
  \<open>rx_run r s\<close> lists every way to match \<open>r\<close> at the start of \<open>s\<close>, in the order a
  backtracking matcher tries them, each with its captured groups and the rest of the
  input; the matcher's answer is the head of this list.
\<close>

datatype cclass =
    Digit
  | Space
  | Range nat nat
  | Chr nat
  | ChrI nat

definition lower_ascii :: "nat \<Rightarrow> nat" where
  "lower_ascii c = (if 65 \<le> c \<and> c \<le> 90 then c + 32 else c)"

fun in_class :: "cclass \<Rightarrow> nat \<Rightarrow> bool" where
  "in_class Digit c = isdecimal_char c"
| "in_class Space c = isspace_char c"
| "in_class (Range lo hi) c = (lo \<le> c \<and> c \<le> hi)"
| "in_class (Chr k) c = (c = k)"
| "in_class (ChrI k) c = (lower_ascii c = lower_ascii k)"

datatype rx =
    Eps
  | One cclass
  | Star cclass
  | Plus cclass
  | Seq rx rx
  | Alt rx rx
  | Grp char rx

type_synonym groups = "(char \<times> pystr) list"

fun rx_run :: "rx \<Rightarrow> pystr \<Rightarrow> (groups \<times> pystr) list" where
  "rx_run Eps s = [([], s)]"
| "rx_run (One c) s =
     (case s of [] \<Rightarrow> [] | x # xs \<Rightarrow> if in_class c x then [([], xs)] else [])"
| "rx_run (Star c) s =
     map (\<lambda>k. ([], drop k s)) (rev [0 ..< Suc (length (takeWhile (in_class c) s))])"
| "rx_run (Plus c) s =
     map (\<lambda>k. ([], drop k s)) (rev [1 ..< Suc (length (takeWhile (in_class c) s))])"
| "rx_run (Seq a b) s =
     concat (map (\<lambda>(g1, s1). map (\<lambda>(g2, s2). (g1 @ g2, s2)) (rx_run b s1)) (rx_run a s))"
| "rx_run (Alt a b) s = rx_run a s @ rx_run b s"
| "rx_run (Grp n a) s =
     map (\<lambda>(g, s1). (g @ [(n, take (length s - length s1) s)], s1)) (rx_run a s)"

fun seqs :: "rx list \<Rightarrow> rx" where
  "seqs [] = Eps"
| "seqs (r # rs) = Seq r (seqs rs)"

text \<open>\<open>re.match\<close>: the first way to match at the start of the string.\<close>

definition re_match :: "rx \<Rightarrow> pystr \<Rightarrow> (groups \<times> pystr) option" where
  "re_match r s = (case rx_run r s of [] \<Rightarrow> None | m # _ \<Rightarrow> Some m)"

text \<open>\<open>re.search\<close>: the first start position, from the left, with a match.\<close>

fun re_search :: "rx \<Rightarrow> pystr \<Rightarrow> groups option" where
  "re_search r [] = map_option fst (re_match r [])"
| "re_search r (c # cs) =
     (case re_match r (c # cs) of
        None \<Rightarrow> re_search r cs
      | Some m \<Rightarrow> Some (fst m))"

text \<open>\<open>re.sub(r"\D", "", s)\<close> keeps exactly the decimal digits.\<close>

definition strip_non_digits :: "pystr \<Rightarrow> pystr" where
  "strip_non_digits s = filter isdecimal_char s"

section \<open>The calendar\<close>

text \<open>
  The \<open>ValueError\<close>s of the normalizer, by origin. Raised by the program itself:
  \<open>Empty_date\<close> (the fixed message for an empty string) and \<open>Unsupported s\<close> (the
  message "unsupported date format" followed by the original input \<open>s\<close>). Raised by the
  library: \<open>No_match data format\<close> ("time data ... does not match format ..."),
  \<open>Unconverted rest\<close> ("unconverted data remains: ..."), \<open>Bad_directive\<close>,
  \<open>Invalid_int\<close> (from \<open>int()\<close>) and \<open>Out_of_range\<close> (a field outside the calendar,
  such as "day is out of range for month").
\<close>

datatype value_error =
    Empty_date
  | No_match pystr string
  | Unconverted pystr
  | Bad_directive string
  | Invalid_int pystr
  | Out_of_range
  | Unsupported pystr

datatype datetime =
  Datetime (year: nat) (month: nat) (day: nat) (hour: nat) (minute: nat) (second: nat)

definition is_leap :: "nat \<Rightarrow> bool" where
  "is_leap y = (y mod 4 = 0 \<and> (y mod 100 \<noteq> 0 \<or> y mod 400 = 0))"

definition days_in_month :: "nat \<Rightarrow> nat \<Rightarrow> nat" where
  "days_in_month y m =
     (if m = 2 then (if is_leap y then 29 else 28)
      else if m = 4 \<or> m = 6 \<or> m = 9 \<or> m = 11 then 30
      else 31)"

text \<open>
  The constructor \<open>datetime(year, month, day, hour, minute, second)\<close> raises
  \<open>ValueError\<close> unless every field is in range (\<open>MINYEAR = 1\<close>, \<open>MAXYEAR = 9999\<close>).
\<close>

definition datetime_new ::
  "nat \<Rightarrow> nat \<Rightarrow> nat \<Rightarrow> nat \<Rightarrow> nat \<Rightarrow> nat \<Rightarrow> value_error + datetime" where
  "datetime_new y m d hh mi ss =
     (if 1 \<le> y \<and> y \<le> 9999 \<and> 1 \<le> m \<and> m \<le> 12 \<and> 1 \<le> d \<and> d \<le> days_in_month y m
         \<and> hh \<le> 23 \<and> mi \<le> 59 \<and> ss \<le> 59
      then Inr (Datetime y m d hh mi ss)
      else Inl Out_of_range)"

text \<open>
  \<open>d.strftime("%Y%m%d")\<close>. CPython hands the format to the C library. Month and day
  come out in two digits, zero-filled. The year comes out as a plain decimal number:
  glibc does not pad \<open>%Y\<close>, and CPython 3.11 passes its output on as it is (on Linux
  \<open>datetime(999, 1, 1).strftime("%Y%m%d")\<close> is \<open>'9990101'\<close>), so a year below
  1000 takes fewer than four characters. From the year 1000 on every C library prints the
  same four digits. The constructor admits the years 1 to 9999 only.
\<close>

definition zfill2 :: "nat \<Rightarrow> pystr" where
  "zfill2 n = [48 + n div 10 mod 10, 48 + n mod 10]"

definition zfill4 :: "nat \<Rightarrow> pystr" where
  "zfill4 n = [48 + n div 1000 mod 10, 48 + n div 100 mod 10, 48 + n div 10 mod 10, 48 + n mod 10]"

definition year_str :: "nat \<Rightarrow> pystr" where
  "year_str y =
     (if y < 10 then [48 + y]
      else if y < 100 then zfill2 y
      else if y < 1000 then (48 + y div 100) # zfill2 (y mod 100)
      else zfill4 y)"

definition strftime_Ymd :: "datetime \<Rightarrow> pystr" where
  "strftime_Ymd d = year_str (year d) @ zfill2 (month d) @ zfill2 (day d)"

section \<open>\<open>datetime.strptime\<close>\<close>

text \<open>
  The regular expression of each format directive, as the table of \<open>_strptime.TimeRE\<close>
  gives it:
  \<^verbatim>\<open>
  'd': r"(?P<d>3[0-1]|[1-2]\d|0[1-9]|[1-9]| [1-9])",
  'H': r"(?P<H>2[0-3]|[0-1]\d|\d)",
  'm': r"(?P<m>1[0-2]|0[1-9]|[1-9])",
  'M': r"(?P<M>[0-5]\d|\d)",
  'S': r"(?P<S>6[0-1]|[0-5]\d|\d)",
  'Y': r"(?P<Y>\d\d\d\d)",
  \<close>
\<close>

definition ch :: "char \<Rightarrow> rx" where
  "ch c = One (Chr (ord c))"

definition rng :: "char \<Rightarrow> char \<Rightarrow> rx" where
  "rng a b = One (Range (ord a) (ord b))"

definition directive :: "char \<Rightarrow> rx option" where
  "directive c =
     (if c = CHR ''d'' then
        Some (Grp c (Alt (Seq (ch CHR ''3'') (rng CHR ''0'' CHR ''1''))
                    (Alt (Seq (rng CHR ''1'' CHR ''2'') (One Digit))
                    (Alt (Seq (ch CHR ''0'') (rng CHR ''1'' CHR ''9''))
                    (Alt (rng CHR ''1'' CHR ''9'')
                         (Seq (ch CHR '' '') (rng CHR ''1'' CHR ''9'')))))))
      else if c = CHR ''H'' then
        Some (Grp c (Alt (Seq (ch CHR ''2'') (rng CHR ''0'' CHR ''3''))
                    (Alt (Seq (rng CHR ''0'' CHR ''1'') (One Digit))
                         (One Digit))))
      else if c = CHR ''m'' then
        Some (Grp c (Alt (Seq (ch CHR ''1'') (rng CHR ''0'' CHR ''2''))
                    (Alt (Seq (ch CHR ''0'') (rng CHR ''1'' CHR ''9''))
                         (rng CHR ''1'' CHR ''9''))))
      else if c = CHR ''M'' then
        Some (Grp c (Alt (Seq (rng CHR ''0'' CHR ''5'') (One Digit)) (One Digit)))
      else if c = CHR ''S'' then
        Some (Grp c (Alt (Seq (ch CHR ''6'') (rng CHR ''0'' CHR ''1''))
                    (Alt (Seq (rng CHR ''0'' CHR ''5'') (One Digit))
                         (One Digit))))
      else if c = CHR ''Y'' then
        Some (Grp c (seqs [One Digit, One Digit, One Digit, One Digit]))
      else None)"

text \<open>
  \<open>TimeRE.pattern\<close>: a directive \<open>%x\<close> becomes its regular expression, a run of
  whitespace becomes \<open>\s+\<close>, any other character stands for itself. The expression is
  compiled with \<open>IGNORECASE\<close>, hence \<open>ChrI\<close>. A directive outside the table, or a stray
  \<open>%\<close>, is a \<open>ValueError\<close>.
\<close>

fun pattern :: "string \<Rightarrow> rx option" where
  "pattern [] = Some Eps"
| "pattern [c] =
     (if c = CHR ''%'' then None
      else if isspace_char (ord c) then Some (Seq (Plus Space) Eps)
      else Some (Seq (One (ChrI (ord c))) Eps))"
| "pattern (c # d # cs) =
     (if c = CHR ''%'' then
        (case directive d of
           None \<Rightarrow> None
         | Some r \<Rightarrow> map_option (Seq r) (pattern cs))
      else if isspace_char (ord c) then
        (if isspace_char (ord d) then pattern (d # cs)
         else map_option (Seq (Plus Space)) (pattern (d # cs)))
      else map_option (Seq (One (ChrI (ord c)))) (pattern (d # cs)))"

definition bind_err :: "'e + 'a \<Rightarrow> ('a \<Rightarrow> 'e + 'b) \<Rightarrow> 'e + 'b" where
  "bind_err r f = (case r of Inl e \<Rightarrow> Inl e | Inr x \<Rightarrow> f x)"

text \<open>
  A field of the match: \<open>int(found_dict[key])\<close> when the group is there, the default of
  \<open>_strptime\<close> otherwise (year 1900, month and day 1, time 0).
\<close>

definition field :: "groups \<Rightarrow> char \<Rightarrow> nat \<Rightarrow> value_error + nat" where
  "field g k dflt =
     (case map_of g k of
        None \<Rightarrow> Inr dflt
      | Some txt \<Rightarrow> (case py_int txt of None \<Rightarrow> Inl (Invalid_int txt) | Some n \<Rightarrow> Inr n))"

text \<open>
  \<open>datetime.strptime(data, format)\<close>: no match at the start of the string, or a match that
  leaves input over, is a \<open>ValueError\<close>; so is a date or time that does not exist.
\<close>

definition strptime :: "pystr \<Rightarrow> string \<Rightarrow> value_error + datetime" where
  "strptime data fmt =
     (case pattern fmt of
        None \<Rightarrow> Inl (Bad_directive fmt)
      | Some r \<Rightarrow>
          (case re_match r data of
             None \<Rightarrow> Inl (No_match data fmt)
           | Some (g, rest) \<Rightarrow>
               if rest \<noteq> [] then Inl (Unconverted rest)
               else
                 bind_err (field g CHR ''Y'' 1900) (\<lambda>y.
                 bind_err (field g CHR ''m'' 1) (\<lambda>m.
                 bind_err (field g CHR ''d'' 1) (\<lambda>d.
                 bind_err (field g CHR ''H'' 0) (\<lambda>hh.
                 bind_err (field g CHR ''M'' 0) (\<lambda>mi.
                 bind_err (field g CHR ''S'' 0) (\<lambda>ss.
                 datetime_new y m d hh mi ss))))))))"

section \<open>The date normalizer \<open>_to_yyyymmdd\<close>\<close>

text \<open>
  The two loops \<open>for fmt in (...): try: d = datetime.strptime(s, fmt); return
  d.strftime("%Y%m%d"); except ValueError: pass\<close>: the first format that parses wins.
\<close>

fun try_formats :: "pystr \<Rightarrow> string list \<Rightarrow> pystr option" where
  "try_formats s [] = None"
| "try_formats s (fmt # fmts) =
     (case strptime s fmt of
        Inr d \<Rightarrow> Some (strftime_Ymd d)
      | Inl e \<Rightarrow> try_formats s fmts)"

definition date_formats :: "string list" where
  "date_formats = [''%Y-%m-%d'', ''%Y/%m/%d'', ''%Y.%m.%d'']"

definition time_formats :: "string list" where
  "time_formats =
    [''%Y-%m-%d %H:%M'', ''%Y-%m-%d %H:%M:%S'',
     ''%Y/%m/%d %H:%M'', ''%Y/%m/%d %H:%M:%S'',
     ''%Y.%m.%d %H:%M'', ''%Y.%m.%d %H:%M:%S'',
     ''%Y-%m-%dT%H:%M'', ''%Y-%m-%dT%H:%M:%S'']"

text \<open>The Hangul syllables of "year", "month" and "day".\<close>

definition nyeon :: nat where "nyeon = 0xB144"
definition wol :: nat where "wol = 0xC6D4"
definition il :: nat where "il = 0xC77C"

text \<open>\<^verbatim>\<open>(\d{4})\s*nyeon\s*(\d{1,2})\s*wol\s*(\d{1,2})\s*il\<close>, with the three syllables.\<close>

definition korean_rx :: rx where
  "korean_rx =
     seqs [Grp CHR ''1'' (seqs [One Digit, One Digit, One Digit, One Digit]),
           Star Space, One (Chr nyeon), Star Space,
           Grp CHR ''2'' (Alt (Seq (One Digit) (One Digit)) (One Digit)),
           Star Space, One (Chr wol), Star Space,
           Grp CHR ''3'' (Alt (Seq (One Digit) (One Digit)) (One Digit)),
           Star Space, One (Chr il)]"

definition korean_date :: "groups \<Rightarrow> value_error + pystr" where
  "korean_date g =
     bind_err (field g CHR ''1'' 0) (\<lambda>y.
     bind_err (field g CHR ''2'' 0) (\<lambda>mm.
     bind_err (field g CHR ''3'' 0) (\<lambda>dd.
     bind_err (datetime_new y mm dd 0 0 0) (\<lambda>d. Inr (strftime_Ymd d)))))"

definition fallback :: "pystr \<Rightarrow> pystr \<Rightarrow> value_error + pystr" where
  "fallback date_str s =
     (let digits = strip_non_digits s in
      if length digits \<ge> 8 then
        (let candidate = take 8 digits in
         case strptime candidate ''%Y%m%d'' of
           Inr d \<Rightarrow> Inr candidate
         | Inl e \<Rightarrow> Inl (Unsupported date_str))
      else Inl (Unsupported date_str))"

definition to_yyyymmdd :: "pystr \<Rightarrow> value_error + pystr" where
  "to_yyyymmdd date_str =
     (let s = strip date_str in
      if s = [] then Inl Empty_date
      else if isdigit s \<and> length s = 8 then
        bind_err (strptime s ''%Y%m%d'') (\<lambda>d. Inr s)
      else
        (case try_formats s date_formats of
           Some r \<Rightarrow> Inr r
         | None \<Rightarrow>
             (case try_formats s time_formats of
                Some r \<Rightarrow> Inr r
              | None \<Rightarrow>
                  (case re_search korean_rx s of
                     Some g \<Rightarrow> korean_date g
                   | None \<Rightarrow> fallback date_str s))))"


section \<open>The school level detector\<close>

definition elementary :: pystr where "elementary = [0xCD08, 0xB4F1, 0xD559, 0xAD50]"
definition middle :: pystr where "middle = [0xC911, 0xD559, 0xAD50]"
definition high :: pystr where "high = [0xACE0, 0xB4F1, 0xD559, 0xAD50]"

definition detect_school_level :: "pystr \<Rightarrow> pystr option" where
  "detect_school_level school_name =
     (let name = strip school_name in
      if contains name elementary then Some elementary
      else if contains name middle then Some middle
      else if contains name high then Some high
      else None)"

section \<open>Values of the JSON payloads\<close>

text \<open>
  What \<open>response.json()\<close> can return: \<open>None\<close>, a bool, a number, a string, a list or a
  dict with string keys. A float is kept as the text of its literal; the program never
  computes with a number of the payload. A dict is an association list read with
  \<open>map_of\<close>.
\<close>

datatype pyval =
    PNone
  | PBool bool
  | PInt int
  | PFloat pystr
  | PStr pystr
  | PList "pyval list"
  | PDict "(pystr \<times> pyval) list"

text \<open>
  The exceptions that can occur. \<open>RequestError\<close> stands for whatever \<open>requests.get\<close> or
  \<open>response.json()\<close> raises (no connection, a body that is not JSON).
\<close>

datatype pyexn =
    IndexError
  | KeyError
  | TypeError
  | AttributeError
  | RequestError

text \<open>\<open>v.get(k, dflt)\<close>: only a dict has the method.\<close>

definition dict_get :: "pyval \<Rightarrow> pystr \<Rightarrow> pyval \<Rightarrow> pyexn + pyval" where
  "dict_get v k dflt =
     (case v of
        PDict kvs \<Rightarrow> Inr (case map_of kvs k of None \<Rightarrow> dflt | Some x \<Rightarrow> x)
      | _ \<Rightarrow> Inl AttributeError)"

text \<open>
  \<open>v[-1]\<close>: the last element of a list or string (\<open>IndexError\<close> when empty); a dict of
  the payload has string keys only, so \<open>-1\<close> is a \<open>KeyError\<close>; anything else is not
  subscriptable.
\<close>

definition last_item :: "pyval \<Rightarrow> pyexn + pyval" where
  "last_item v =
     (case v of
        PList xs \<Rightarrow> if xs = [] then Inl IndexError else Inr (last xs)
      | PStr s \<Rightarrow> if s = [] then Inl IndexError else Inr (PStr [last s])
      | PDict kvs \<Rightarrow> Inl KeyError
      | _ \<Rightarrow> Inl TypeError)"

text \<open>
  \<open>for x in v\<close>: the elements of a list, the characters of a string, the keys of a dict;
  anything else is not iterable. \<open>len(v)\<close> is the number of items iterated.
\<close>

definition py_iter :: "pyval \<Rightarrow> pyexn + pyval list" where
  "py_iter v =
     (case v of
        PList xs \<Rightarrow> Inr xs
      | PStr s \<Rightarrow> Inr (map (\<lambda>c. PStr [c]) s)
      | PDict kvs \<Rightarrow> Inr (map (\<lambda>kv. PStr (fst kv)) kvs)
      | _ \<Rightarrow> Inl TypeError)"

text \<open>\<open>xs[i]\<close> on a list, with Python's negative indices.\<close>

definition py_index :: "'a list \<Rightarrow> int \<Rightarrow> pyexn + 'a" where
  "py_index xs i =
     (if 0 \<le> i \<and> i < int (length xs) then Inr (xs ! nat i)
      else if i < 0 \<and> - int (length xs) \<le> i then Inr (xs ! nat (int (length xs) + i))
      else Inl IndexError)"

section \<open>The NEIS service\<close>

text \<open>
  \<open>requests.get(url, params=params)\<close> followed by \<open>response.json()\<close> is the only contact
  with the outside: the environment gives the parsed body (or the exception) for each
  request, and \<open>SERVICE_KEY\<close>. Every function that talks to the service returns the list
  of requests it sent together with its outcome.
\<close>

record request =
  url :: string
  params :: "(string \<times> pyval) list"

record env =
  service_key :: pystr
  get_json :: "request \<Rightarrow> pyexn + pyval"

type_synonym 'a io = "request list \<times> (pyexn + 'a)"

definition URL_SCHOOL_INFO :: string where
  "URL_SCHOOL_INFO = ''http://open.neis.go.kr/hub/schoolInfo''"

definition URL_SCHOOL_SCHEDULE :: string where
  "URL_SCHOOL_SCHEDULE = ''http://open.neis.go.kr/hub/SchoolSchedule''"

text \<open>
  The \<open>message\<close> of a result: the fixed texts, the text \<open>"Error parsing ...: " + str(e)\<close>
  for a caught exception \<open>e\<close>, or the \<open>RESULT.MESSAGE\<close> of the payload as it came.
\<close>

datatype message =
    Missing_key
  | Initialized
  | Success_to_find
  | Error_parsing pyexn
  | Api_message pyval

record api_result =
  valid :: bool
  message :: message

record school_info = api_result +
  school_num :: nat
  school_name :: "pyval list"
  school_code :: "pyval list"
  org_name :: "pyval list"
  org_code :: "pyval list"

record schedule_info = api_result +
  schedule_num :: nat
  event_date :: "pyval list"
  event_name :: "pyval list"
  event_type :: "pyval list"
  event_content :: "pyval list"
  valid_grade :: "bool list list"

text \<open>\<open>data.get('RESULT', {}).get(key)\<close>.\<close>

definition result_field :: "pyval \<Rightarrow> string \<Rightarrow> pyexn + pyval" where
  "result_field data key =
     bind_err (dict_get data (u ''RESULT'') (PDict [])) (\<lambda>r. dict_get r (u key) PNone)"

text \<open>\<open>data.get(name, [])[-1].get('row', [])\<close>, then the items the loop will visit.\<close>

definition rows_of :: "pyval \<Rightarrow> string \<Rightarrow> pyexn + pyval list" where
  "rows_of data name =
     bind_err (dict_get data (u name) (PList [])) (\<lambda>l.
     bind_err (last_item l) (\<lambda>x.
     bind_err (dict_get x (u ''row'') (PList [])) py_iter))"

subsection \<open>\<open>get_school_info\<close>\<close>

definition school_info_init :: "message \<Rightarrow> school_info" where
  "school_info_init m =
     \<lparr>valid = False, message = m, school_num = 0, school_name = [], school_code = [],
      org_name = [], org_code = []\<rparr>"

definition school_info_request :: "env \<Rightarrow> pystr \<Rightarrow> request" where
  "school_info_request e name =
     \<lparr>url = URL_SCHOOL_INFO,
      params = [(''KEY'', PStr (service_key e)), (''Type'', PStr (u ''json'')),
                (''pIndex'', PStr (u ''1'')), (''pSize'', PStr (u ''100'')),
                (''SCHUL_NM'', PStr name)]\<rparr>"

text \<open>
  One turn of the loop over the rows. Each of the four statements calls \<open>school_info.get\<close>
  before it appends, so a row that is not a dict raises before anything is appended.
\<close>

definition add_school_row :: "school_info \<Rightarrow> pyval \<Rightarrow> school_info \<times> pyexn option" where
  "add_school_row r row =
     (case row of
        PDict kvs \<Rightarrow>
          (r\<lparr>school_name := school_name r @ [case map_of kvs (u ''SCHUL_NM'') of None \<Rightarrow> PNone | Some x \<Rightarrow> x],
             school_code := school_code r @ [case map_of kvs (u ''SD_SCHUL_CODE'') of None \<Rightarrow> PNone | Some x \<Rightarrow> x],
             org_name := org_name r @ [case map_of kvs (u ''ATPT_OFCDC_SC_NM'') of None \<Rightarrow> PNone | Some x \<Rightarrow> x],
             org_code := org_code r @ [case map_of kvs (u ''ATPT_OFCDC_SC_CODE'') of None \<Rightarrow> PNone | Some x \<Rightarrow> x]\<rparr>,
           None)
      | _ \<Rightarrow> (r, Some AttributeError))"

fun add_school_rows :: "school_info \<Rightarrow> pyval list \<Rightarrow> school_info \<times> pyexn option" where
  "add_school_rows r [] = (r, None)"
| "add_school_rows r (row # rows) =
     (case add_school_row r row of
        (r', None) \<Rightarrow> add_school_rows r' rows
      | (r', Some e) \<Rightarrow> (r', Some e))"

text \<open>The \<open>except\<close> branch: every field is reset.\<close>

definition school_info_failed :: "pyexn \<Rightarrow> school_info" where
  "school_info_failed e =
     \<lparr>valid = False, message = Error_parsing e, school_num = 0, school_name = [],
      school_code = [], org_name = [], org_code = []\<rparr>"

definition parse_school_info :: "pyval \<Rightarrow> school_info" where
  "parse_school_info data =
     (case rows_of data ''schoolInfo'' of
        Inl e \<Rightarrow> school_info_failed e
      | Inr school_info_list \<Rightarrow>
          (case add_school_rows (school_info_init Initialized) school_info_list of
             (r, Some e) \<Rightarrow> school_info_failed e
           | (r, None) \<Rightarrow>
               r\<lparr>valid := True, message := Success_to_find,
                 school_num := length school_info_list\<rparr>))"

definition get_school_info :: "env \<Rightarrow> pystr \<Rightarrow> school_info io" where
  "get_school_info e name =
     (if service_key e = [] then ([], Inr (school_info_init Missing_key))
      else
        (let req = school_info_request e name in
         case get_json e req of
           Inl x \<Rightarrow> ([req], Inl x)
         | Inr data \<Rightarrow>
             (case result_field data ''CODE'' of
                Inl x \<Rightarrow> ([req], Inl x)
              | Inr return_code \<Rightarrow>
                  if return_code = PNone then ([req], Inr (parse_school_info data))
                  else
                    (case result_field data ''MESSAGE'' of
                       Inl x \<Rightarrow> ([req], Inl x)
                     | Inr return_message \<Rightarrow>
                         ([req], Inr ((school_info_init Initialized)
                                        \<lparr>valid := False, message := Api_message return_message\<rparr>))))))"

subsection \<open>\<open>get_school_schedule\<close>\<close>

definition schedule_info_init :: "message \<Rightarrow> schedule_info" where
  "schedule_info_init m =
     \<lparr>valid = False, message = m, schedule_num = 0, event_date = [], event_name = [],
      event_type = [], event_content = [], valid_grade = replicate 6 []\<rparr>"

definition schedule_request :: "env \<Rightarrow> pyval \<Rightarrow> pyval \<Rightarrow> pystr \<Rightarrow> pystr \<Rightarrow> request" where
  "schedule_request e code org from_date to_date =
     \<lparr>url = URL_SCHOOL_SCHEDULE,
      params = [(''KEY'', PStr (service_key e)), (''Type'', PStr (u ''json'')),
                (''pIndex'', PStr (u ''1'')), (''pSize'', PStr (u ''100'')),
                (''SD_SCHUL_CODE'', code), (''ATPT_OFCDC_SC_CODE'', org),
                (''AA_FROM_YMD'', PStr from_date), (''AA_TO_YMD'', PStr to_date)]\<rparr>"

text \<open>
  \<open>str(schedule.get(key, '')).upper() == 'Y'\<close>. The only strings whose upper case is
  \<open>Y\<close> are \<open>Y\<close> and \<open>y\<close>; \<open>str\<close> of a value that is not a string is never one of them
  (\<open>None\<close>, \<open>True\<close>, a number, a bracketed list or dict).
\<close>

definition grade_flag :: "(pystr \<times> pyval) list \<Rightarrow> string \<Rightarrow> bool" where
  "grade_flag kvs key =
     (case map_of kvs (u key) of
        Some (PStr s) \<Rightarrow> s = u ''Y'' \<or> s = u ''y''
      | _ \<Rightarrow> False)"

definition append_at :: "nat \<Rightarrow> 'a \<Rightarrow> 'a list list \<Rightarrow> 'a list list" where
  "append_at i x xss = xss[i := xss ! i @ [x]]"

definition add_schedule_row :: "schedule_info \<Rightarrow> pyval \<Rightarrow> schedule_info \<times> pyexn option" where
  "add_schedule_row r row =
     (case row of
        PDict kvs \<Rightarrow>
          (r\<lparr>event_date := event_date r @ [case map_of kvs (u ''AA_YMD'') of None \<Rightarrow> PNone | Some x \<Rightarrow> x],
             event_name := event_name r @ [case map_of kvs (u ''EVENT_NM'') of None \<Rightarrow> PNone | Some x \<Rightarrow> x],
             event_type := event_type r @ [case map_of kvs (u ''SBTR_DD_SC_NM'') of None \<Rightarrow> PNone | Some x \<Rightarrow> x],
             event_content := event_content r @ [case map_of kvs (u ''EVENT_CNTNT'') of None \<Rightarrow> PNone | Some x \<Rightarrow> x],
             valid_grade :=
               append_at 5 (grade_flag kvs ''SIX_GRADE_EVENT_YN'')
              (append_at 4 (grade_flag kvs ''FIV_GRADE_EVENT_YN'')
              (append_at 3 (grade_flag kvs ''FR_GRADE_EVENT_YN'')
              (append_at 2 (grade_flag kvs ''THREE_GRADE_EVENT_YN'')
              (append_at 1 (grade_flag kvs ''TW_GRADE_EVENT_YN'')
              (append_at 0 (grade_flag kvs ''ONE_GRADE_EVENT_YN'') (valid_grade r))))))\<rparr>,
           None)
      | _ \<Rightarrow> (r, Some AttributeError))"

fun add_schedule_rows :: "schedule_info \<Rightarrow> pyval list \<Rightarrow> schedule_info \<times> pyexn option" where
  "add_schedule_rows r [] = (r, None)"
| "add_schedule_rows r (row # rows) =
     (case add_schedule_row r row of
        (r', None) \<Rightarrow> add_schedule_rows r' rows
      | (r', Some e) \<Rightarrow> (r', Some e))"

text \<open>
  The \<open>except\<close> branch sets \<open>valid\<close>, \<open>message\<close> and \<open>schedule_num\<close> and returns
  \<open>result_value\<close>; the lists keep what the loop had appended.
\<close>

definition parse_school_schedule :: "pyval \<Rightarrow> schedule_info" where
  "parse_school_schedule data =
     (case rows_of data ''SchoolSchedule'' of
        Inl e \<Rightarrow>
          (schedule_info_init Initialized)
            \<lparr>valid := False, message := Error_parsing e, schedule_num := 0\<rparr>
      | Inr schedule_list \<Rightarrow>
          (case add_schedule_rows (schedule_info_init Initialized) schedule_list of
             (r, Some e) \<Rightarrow> r\<lparr>valid := False, message := Error_parsing e, schedule_num := 0\<rparr>
           | (r, None) \<Rightarrow>
               r\<lparr>valid := True, message := Success_to_find,
                 schedule_num := length schedule_list\<rparr>))"

definition get_school_schedule ::
  "env \<Rightarrow> pyval \<Rightarrow> pyval \<Rightarrow> pystr \<Rightarrow> pystr \<Rightarrow> schedule_info io" where
  "get_school_schedule e code org from_date to_date =
     (if service_key e = [] then ([], Inr (schedule_info_init Missing_key))
      else
        (let req = schedule_request e code org from_date to_date in
         case get_json e req of
           Inl x \<Rightarrow> ([req], Inl x)
         | Inr data \<Rightarrow>
             (case result_field data ''CODE'' of
                Inl x \<Rightarrow> ([req], Inl x)
              | Inr return_code \<Rightarrow>
                  if return_code = PNone then ([req], Inr (parse_school_schedule data))
                  else
                    (case result_field data ''MESSAGE'' of
                       Inl x \<Rightarrow> ([req], Inl x)
                     | Inr return_message \<Rightarrow>
                         ([req], Inr ((schedule_info_init Initialized)
                                        \<lparr>valid := False, message := Api_message return_message,
                                         schedule_num := 0\<rparr>))))))"

subsection \<open>\<open>get_school_timetable\<close>\<close>

datatype row =
  Row (row_school_name: pyval) (row_event_date: pyval) (row_event_name: pyval)
      (row_event_type: pyval) (row_event_content: pyval) (row_grade: int)

definition grade_index :: "int \<Rightarrow> int" where
  "grade_index g = max 0 (min 5 (g - 1))"

definition target_grade :: "int list \<Rightarrow> int list" where
  "target_grade grade = map grade_index grade"

text \<open>The dict appended for schedule \<open>sch_idx\<close> of grade index \<open>g\<close>.\<close>

definition event_row :: "school_info \<Rightarrow> int \<Rightarrow> schedule_info \<Rightarrow> int \<Rightarrow> int \<Rightarrow> pyexn + row" where
  "event_row info idx sch g sch_idx =
     bind_err (py_index (school_name info) idx) (\<lambda>n.
     bind_err (py_index (event_date sch) sch_idx) (\<lambda>d.
     bind_err (py_index (event_name sch) sch_idx) (\<lambda>nm.
     bind_err (py_index (event_type sch) sch_idx) (\<lambda>ty.
     bind_err (py_index (event_content sch) sch_idx) (\<lambda>c.
     Inr (Row n d nm ty c (g + 1)))))))"

text \<open>\<open>for sch_idx in range(schedule_num)\<close>, for one grade index.\<close>

fun schedule_loop ::
  "school_info \<Rightarrow> int \<Rightarrow> schedule_info \<Rightarrow> int \<Rightarrow> nat list \<Rightarrow> pyexn + row list" where
  "schedule_loop info idx sch g [] = Inr []"
| "schedule_loop info idx sch g (i # is) =
     bind_err (py_index (valid_grade sch) g) (\<lambda>flags.
     bind_err (py_index flags (int i)) (\<lambda>flag.
     bind_err (if flag then bind_err (event_row info idx sch g (int i)) (\<lambda>r. Inr [r])
               else Inr []) (\<lambda>new.
     bind_err (schedule_loop info idx sch g is) (\<lambda>rest. Inr (new @ rest)))))"

text \<open>\<open>for g in target_grade\<close>.\<close>

fun grade_loop ::
  "school_info \<Rightarrow> int \<Rightarrow> schedule_info \<Rightarrow> int list \<Rightarrow> pyexn + row list" where
  "grade_loop info idx sch [] = Inr []"
| "grade_loop info idx sch (g # gs) =
     bind_err (schedule_loop info idx sch g [0 ..< schedule_num sch]) (\<lambda>new.
     bind_err (grade_loop info idx sch gs) (\<lambda>rest. Inr (new @ rest)))"

text \<open>
  The body of the filter's \<open>if\<close> for match \<open>idx\<close>: one call of \<open>get_school_schedule\<close>,
  the rows of its events, and then \<open>break\<close>.
\<close>

definition query_match ::
  "env \<Rightarrow> school_info \<Rightarrow> pystr \<Rightarrow> pystr \<Rightarrow> int list \<Rightarrow> nat \<Rightarrow> row list io" where
  "query_match e info from_date to_date grades idx =
     (case py_index (school_code info) (int idx) of
        Inl x \<Rightarrow> ([], Inl x)
      | Inr code \<Rightarrow>
          (case py_index (org_code info) (int idx) of
             Inl x \<Rightarrow> ([], Inl x)
           | Inr org \<Rightarrow>
               (case get_school_schedule e code org from_date to_date of
                  (tr, Inl x) \<Rightarrow> (tr, Inl x)
                | (tr, Inr sch) \<Rightarrow>
                    if valid sch \<and> schedule_num sch > 0
                    then (tr, grade_loop info (int idx) sch grades)
                    else (tr, Inr []))))"

text \<open>
  \<open>for idx in range(school_num)\<close>: a match that the filter rejects is passed over; the
  first one it accepts is queried and ends the loop.
\<close>

fun match_loop ::
  "env \<Rightarrow> school_info \<Rightarrow> pystr \<Rightarrow> pystr \<Rightarrow> int list \<Rightarrow> pystr option \<Rightarrow> nat list \<Rightarrow> row list io"
where
  "match_loop e info from_date to_date grades target_org [] = ([], Inr [])"
| "match_loop e info from_date to_date grades target_org (idx # idxs) =
     (case target_org of
        None \<Rightarrow> query_match e info from_date to_date grades idx
      | Some t \<Rightarrow>
          (case py_index (org_name info) (int idx) of
             Inl x \<Rightarrow> ([], Inl x)
           | Inr org \<Rightarrow>
               if org = PStr t then query_match e info from_date to_date grades idx
               else match_loop e info from_date to_date grades target_org idxs))"

definition get_school_timetable ::
  "env \<Rightarrow> pystr \<Rightarrow> pystr \<Rightarrow> pystr \<Rightarrow> int list \<Rightarrow> pystr option \<Rightarrow> row list io" where
  "get_school_timetable e name from_date to_date grade target_org =
     (case get_school_info e name of
        (tr, Inl x) \<Rightarrow> (tr, Inl x)
      | (tr, Inr info) \<Rightarrow>
          if valid info \<and> school_num info > 0 then
            (case match_loop e info from_date to_date (target_grade grade) target_org
                    [0 ..< school_num info] of
               (tr', r) \<Rightarrow> (tr @ tr', r))
          else (tr, Inr []))"

subsection \<open>The tool \<open>QueryKoreanSchoolTool._run\<close>\<close>

text \<open>
  The tool returns either the list of rows or the dict
  \<open>{"valid": False, "message": "...: " + str(e), "schedules": []}\<close> for the exception
  \<open>e\<close> of the normalizer.
\<close>

datatype tool_output =
    Schedules "row list"
  | Error_dict (err_valid: bool) (err_message: value_error) (err_schedules: "row list")

definition default_grades :: "pystr \<Rightarrow> int list" where
  "default_grades name =
     (if detect_school_level name = Some elementary then [1, 2, 3, 4, 5, 6] else [1, 2, 3])"

definition run ::
  "env \<Rightarrow> pystr \<Rightarrow> pystr \<Rightarrow> pystr \<Rightarrow> int list option \<Rightarrow> pystr option \<Rightarrow> tool_output io" where
  "run e name from_date to_date grade target_org =
     (let grades = (case grade of None \<Rightarrow> default_grades name | Some g \<Rightarrow> g) in
      case bind_err (to_yyyymmdd from_date) (\<lambda>from_norm.
           bind_err (to_yyyymmdd to_date) (\<lambda>to_norm. Inr (from_norm, to_norm))) of
        Inl x \<Rightarrow> ([], Inr (Error_dict False x []))
      | Inr (from_norm, to_norm) \<Rightarrow>
          (case get_school_timetable e name from_norm to_norm grades target_org of
             (tr, Inl x) \<Rightarrow> (tr, Inl x)
           | (tr, Inr rows) \<Rightarrow> (tr, Inr (Schedules rows))))"

section \<open>Digits that a match consumes\<close>

text \<open>
  \<open>digit_count s\<close> is the number of decimal digits in \<open>s\<close>; \<open>min_digits r\<close> is a lower
  bound on the decimal digits in any text that \<open>r\<close> matches (\<open>class_digits c\<close>: the class
  \<open>c\<close> has decimal digits only).
\<close>

fun class_digits :: "cclass \<Rightarrow> bool" where
  "class_digits Digit = True"
| "class_digits Space = False"
| "class_digits (Range lo hi) = (48 \<le> lo \<and> hi \<le> 57)"
| "class_digits (Chr k) = isdecimal_char k"
| "class_digits (ChrI k) = False"

fun min_digits :: "rx \<Rightarrow> nat" where
  "min_digits Eps = 0"
| "min_digits (One c) = (if class_digits c then 1 else 0)"
| "min_digits (Star c) = 0"
| "min_digits (Plus c) = 0"
| "min_digits (Seq a b) = min_digits a + min_digits b"
| "min_digits (Alt a b) = min (min_digits a) (min_digits b)"
| "min_digits (Grp n a) = min_digits a"

definition digit_count :: "pystr \<Rightarrow> nat" where
  "digit_count s = length (filter isdecimal_char s)"

section \<open>The regular expressions of the formats\<close>

text \<open>
  Every format of the two loops is the date part with one separator, followed by nothing,
  by hours and minutes, or by hours, minutes and seconds; \<open>pattern\<close> gives these
  expressions for them (lemmas \<open>pattern_dates\<close> and \<open>pattern_times\<close>).
\<close>

definition date_then :: "nat \<Rightarrow> rx \<Rightarrow> rx" where
  "date_then sep r =
     Seq (the (directive CHR ''Y'')) (Seq (One (ChrI sep))
    (Seq (the (directive CHR ''m'')) (Seq (One (ChrI sep))
    (Seq (the (directive CHR ''d'')) r))))"

definition hm_rx :: "nat \<Rightarrow> rx \<Rightarrow> rx" where
  "hm_rx t r =
     Seq (if t = 32 then Plus Space else One (ChrI t))
    (Seq (the (directive CHR ''H'')) (Seq (One (ChrI 58))
    (Seq (the (directive CHR ''M'')) r)))"

definition s_rx :: rx where
  "s_rx = Seq (One (ChrI 58)) (Seq (the (directive CHR ''S'')) Eps)"

section \<open>Notions of the specification\<close>

text \<open>\<open>clamp(x, lo, hi)\<close> as the specification uses it for the grade index.\<close>

definition clamp :: "int \<Rightarrow> int \<Rightarrow> int \<Rightarrow> int" where
  "clamp x lo hi = (if x < lo then lo else if hi < x then hi else x)"



text \<open>
  The organization filter: no filter accepts every match, a filter accepts the matches
  whose organization name is that very string. \<open>first_accepted\<close> is the position of the
  first match that the filter accepts.
\<close>

definition accepts :: "pystr option \<Rightarrow> pyval \<Rightarrow> bool" where
  "accepts target_org org = (case target_org of None \<Rightarrow> True | Some t \<Rightarrow> org = PStr t)"

definition first_accepted :: "pystr option \<Rightarrow> pyval list \<Rightarrow> nat option" where
  "first_accepted target_org orgs =
     find (\<lambda>i. accepts target_org (orgs ! i)) [0 ..< length orgs]"

text \<open>
  An 8-digit string that is a valid calendar date: eight ASCII digits whose first four,
  next two and last two, read as numbers, are a year, a month and a day of the calendar.
\<close>

definition ascii_digit :: "nat \<Rightarrow> bool" where
  "ascii_digit c = (48 \<le> c \<and> c \<le> 57)"

definition valid_ymd :: "nat \<Rightarrow> nat \<Rightarrow> nat \<Rightarrow> bool" where
  "valid_ymd y m d =
     (1 \<le> y \<and> y \<le> 9999 \<and> 1 \<le> m \<and> m \<le> 12 \<and> 1 \<le> d \<and> d \<le> days_in_month y m)"

definition number :: "pystr \<Rightarrow> nat" where
  "number s = foldl (\<lambda>acc c. 10 * acc + (c - 48)) 0 s"

definition is_date8 :: "pystr \<Rightarrow> bool" where
  "is_date8 s =
     (length s = 8 \<and> list_all ascii_digit s
      \<and> valid_ymd (number (take 4 s)) (number (take 2 (drop 4 s))) (number (drop 6 s)))"

text \<open>
  Representations of the date \<open>y\<close>-\<open>m\<close>-\<open>d\<close> with zero-filled fields: the compact form; the
  form with a separator; that form followed by a space and the time, with or without
  seconds; the Korean long form, with any whitespace before and after each unit, the month
  and the day written with or without a leading zero.
\<close>

definition compact :: "nat \<Rightarrow> nat \<Rightarrow> nat \<Rightarrow> pystr" where
  "compact y m d = zfill4 y @ zfill2 m @ zfill2 d"

definition sep_form :: "nat \<Rightarrow> nat \<Rightarrow> nat \<Rightarrow> nat \<Rightarrow> pystr" where
  "sep_form sep y m d = zfill4 y @ [sep] @ zfill2 m @ [sep] @ zfill2 d"

definition hm_form :: "nat \<Rightarrow> nat \<Rightarrow> pystr" where
  "hm_form hh mi = [32] @ zfill2 hh @ [58] @ zfill2 mi"

definition hms_form :: "nat \<Rightarrow> nat \<Rightarrow> nat \<Rightarrow> pystr" where
  "hms_form hh mi ss = hm_form hh mi @ [58] @ zfill2 ss"

definition short :: "nat \<Rightarrow> pystr" where
  "short n = (if n < 10 then [48 + n] else zfill2 n)"

definition korean_form ::
  "pystr \<Rightarrow> pystr \<Rightarrow> pystr \<Rightarrow> pystr \<Rightarrow> pystr \<Rightarrow> nat \<Rightarrow> pystr \<Rightarrow> pystr \<Rightarrow> pystr" where
  "korean_form w1 w2 w3 w4 w5 y mt dt =
     zfill4 y @ w1 @ [nyeon] @ w2 @ mt @ w3 @ [wol] @ w4 @ dt @ w5 @ [il]"

text \<open>
  The rows of the grade index \<open>k\<close>: one row, labelled with the grade \<open>k + 1\<close>, for each
  event whose flag for that index is set, in the order of the events.
\<close>

definition rows_of_index :: "pyval \<Rightarrow> schedule_info \<Rightarrow> int \<Rightarrow> row list" where
  "rows_of_index nm sch k =
     map (\<lambda>j. Row nm (event_date sch ! j) (event_name sch ! j) (event_type sch ! j)
                  (event_content sch ! j) (k + 1))
         (filter (\<lambda>j. valid_grade sch ! nat k ! j) [0 ..< schedule_num sch])"


section \<open>Sample environments and payloads\<close>

text \<open>A configured key and a service that cannot be reached.\<close>

definition unreachable :: env where
  "unreachable = \<lparr>service_key = u ''KEY'', get_json = (\<lambda>r. Inl RequestError)\<rparr>"

text \<open>
  A configured key and a service that answers the school lookup with one payload and the
  schedule lookup with another.
\<close>

definition neis :: "pyval \<Rightarrow> pyval \<Rightarrow> env" where
  "neis schools schedule =
     \<lparr>service_key = u ''KEY'',
      get_json = (\<lambda>r. if url r = URL_SCHOOL_INFO then Inr schools else Inr schedule)\<rparr>"

text \<open>One event, for the grades 1 and 2, and the payload that carries a list of rows.\<close>

definition founding_day :: pyval where
  "founding_day =
     PDict [(u ''AA_YMD'', PStr (u ''20251015'')), (u ''EVENT_NM'', PStr (u ''Founding day'')),
            (u ''SBTR_DD_SC_NM'', PStr (u ''holiday'')),
            (u ''ONE_GRADE_EVENT_YN'', PStr (u ''Y'')), (u ''TW_GRADE_EVENT_YN'', PStr (u ''Y'')),
            (u ''THREE_GRADE_EVENT_YN'', PStr (u ''N''))]"

definition schedule_payload :: "pyval list \<Rightarrow> pyval" where
  "schedule_payload rows =
     PDict [(u ''SchoolSchedule'',
             PList [PDict [(u ''head'', PList [])], PDict [(u ''row'', PList rows)]])]"


text \<open>Two schools of the same name under different offices of education.\<close>

definition school_row :: "string \<Rightarrow> string \<Rightarrow> string \<Rightarrow> string \<Rightarrow> pyval" where
  "school_row nm code org_nm org_cd =
     PDict [(u ''SCHUL_NM'', PStr (u nm)), (u ''SD_SCHUL_CODE'', PStr (u code)),
            (u ''ATPT_OFCDC_SC_NM'', PStr (u org_nm)), (u ''ATPT_OFCDC_SC_CODE'', PStr (u org_cd))]"

definition two_schools :: pyval where
  "two_schools =
     PDict [(u ''schoolInfo'',
             PList [PDict [(u ''head'', PList [])],
                    PDict [(u ''row'',
                            PList [school_row ''Hansol'' ''7010574'' ''Seoul'' ''B10'',
                                   school_row ''Hansol'' ''7530001'' ''Gyeonggi'' ''J10''])]])]"

text \<open>A second event, for the grade 6 only.\<close>

definition sports_day :: pyval where
  "sports_day =
     PDict [(u ''AA_YMD'', PStr (u ''20251024'')), (u ''EVENT_NM'', PStr (u ''Sports day'')),
            (u ''SBTR_DD_SC_NM'', PStr (u ''event'')), (u ''EVENT_CNTNT'', PStr (u ''relay'')),
            (u ''SIX_GRADE_EVENT_YN'', PStr (u ''y''))]"

text \<open>A school name that carries the token of the elementary school.\<close>

definition eunbit :: pystr where
  "eunbit = [0xC740, 0xBE5B] @ elementary"


section \<open>Evaluation\<close>

lemmas string_defs = u_def ord_def strip_def isspace_char_def space_ranges_def in_ranges_def
  isdigit_def isdigit_char_def isdecimal_char_def decimal_value_def decimal_blocks_def
  other_digit_ranges_def lower_ascii_def

lemmas normalizer_defs = to_yyyymmdd_def strptime_def re_match_def directive_def ch_def rng_def
  bind_err_def field_def py_int_def datetime_new_def days_in_month_def is_leap_def
  strftime_Ymd_def year_str_def zfill2_def zfill4_def date_formats_def time_formats_def
  korean_rx_def korean_date_def fallback_def strip_non_digits_def nyeon_def wol_def il_def

section \<open>The grade index\<close>

lemma grade_index_clamp: "grade_index g = clamp (g - 1) 0 5"
  by (simp add: grade_index_def clamp_def)

lemma grade_index_idem: "grade_index (clamp (g - 1) 0 5 + 1) = grade_index g"
  by (simp add: grade_index_def clamp_def)

section \<open>Date errors in the tool\<close>

text \<open>
  C9. When the normalizer fails on \<open>from_date\<close>, or succeeds on it and fails on
  \<open>to_date\<close>, the tool returns the dict with \<open>valid = False\<close>, the error of the
  normalizer as message and no schedules; it sends no request, whatever the environment.
\<close>

theorem run_date_error:
  "to_yyyymmdd from_date = Inl x
     \<or> (to_yyyymmdd from_date = Inr f \<and> to_yyyymmdd to_date = Inl x)
   \<Longrightarrow> run e name from_date to_date grade target_org = ([], Inr (Error_dict False x []))"
  by (auto simp add: run_def bind_err_def Let_def)

theorem run_date_error_witness:
  "to_yyyymmdd (u ''next week'') = Inl (Unsupported (u ''next week''))
   \<and> run unreachable (u ''school'') (u ''next week'') (u ''20251030'') None None
       = ([], Inr (Error_dict False (Unsupported (u ''next week'')) []))
   \<and> to_yyyymmdd (u ''2025-10-01'') = Inr (u ''20251001'')
   \<and> to_yyyymmdd (u ''20251332'') = Inl (Unconverted (u ''32''))
   \<and> run unreachable (u ''school'') (u ''2025-10-01'') (u ''20251332'') None None
       = ([], Inr (Error_dict False (Unconverted (u ''32'')) []))"
proof -
  have h1: "to_yyyymmdd (u ''next week'') = Inl (Unsupported (u ''next week''))"
    by (simp add: string_defs normalizer_defs)
  have h2: "to_yyyymmdd (u ''2025-10-01'') = Inr (u ''20251001'')"
    by (simp add: string_defs normalizer_defs)
  have h3: "to_yyyymmdd (u ''20251332'') = Inl (Unconverted (u ''32''))"
    by (simp add: string_defs normalizer_defs)
  show ?thesis
    using h1 h2 h3 run_date_error [OF disjI1, OF h1]
      run_date_error [OF disjI2, OF conjI, OF h2 h3]
    by simp
qed

lemma six_lists: "replicate 6 x = [x, x, x, x, x, x]"
  by (simp add: eval_nat_numeral)

lemmas api_defs = neis_def founding_day_def schedule_payload_def get_school_schedule_def
  schedule_request_def result_field_def dict_get_def bind_err_def parse_school_schedule_def
  rows_of_def last_item_def py_iter_def schedule_info_init_def add_schedule_row_def
  append_at_def six_lists grade_flag_def URL_SCHOOL_INFO_def URL_SCHOOL_SCHEDULE_def u_def ord_def

section \<open>The schedule fetcher\<close>

text \<open>
  C1. The specification has a failed row leave every list of the result empty. The code
  at a payload whose first row is well formed and whose second row is a string: the parse
  fails with \<open>valid = False\<close>, a message that embeds the exception and
  \<open>schedule_num = 0\<close>, but the lists still hold the first row. The \<open>except\<close> branch
  of \<open>get_school_info\<close> resets its lists; the one of \<open>get_school_schedule\<close> does not.
\<close>

theorem schedule_keeps_partial_rows:
  "snd (get_school_schedule (neis PNone (schedule_payload [founding_day, PStr (u ''oops'')]))
          (PStr (u ''7010574'')) (PStr (u ''J10'')) (u ''20251001'') (u ''20251030''))
   = Inr \<lparr>valid = False, message = Error_parsing AttributeError, schedule_num = 0,
          event_date = [PStr (u ''20251015'')], event_name = [PStr (u ''Founding day'')],
          event_type = [PStr (u ''holiday'')], event_content = [PNone],
          valid_grade = [[True], [True], [False], [False], [False], [False]]\<rparr>"
  by (simp add: api_defs)

lemma add_schedule_row_lengths:
  assumes "add_schedule_row r row = (r', None)" "length (valid_grade r) = 6"
  shows "length (event_date r') = Suc (length (event_date r))
       \<and> length (event_name r') = Suc (length (event_name r))
       \<and> length (event_type r') = Suc (length (event_type r))
       \<and> length (event_content r') = Suc (length (event_content r))
       \<and> length (valid_grade r') = 6
       \<and> (\<forall>g<6. length (valid_grade r' ! g) = Suc (length (valid_grade r ! g)))"
proof (cases row)
  case (PDict kvs)
  have six: "\<And>g. g < 6 \<Longrightarrow> g = 0 \<or> g = 1 \<or> g = 2 \<or> g = 3 \<or> g = 4 \<or> g = (5::nat)" by arith
  from PDict assms show ?thesis
    by (auto simp add: add_schedule_row_def append_at_def nth_list_update dest!: six)
qed (use assms in \<open>simp_all add: add_schedule_row_def\<close>)

lemma add_schedule_rows_lengths:
  "add_schedule_rows r rows = (r', None) \<Longrightarrow> length (valid_grade r) = 6 \<Longrightarrow>
     length (event_date r') = length (event_date r) + length rows
   \<and> length (event_name r') = length (event_name r) + length rows
   \<and> length (event_type r') = length (event_type r) + length rows
   \<and> length (event_content r') = length (event_content r) + length rows
   \<and> length (valid_grade r') = 6
   \<and> (\<forall>g<6. length (valid_grade r' ! g) = length (valid_grade r ! g) + length rows)"
proof (induction rows arbitrary: r)
  case Nil
  then show ?case by simp
next
  case (Cons row rows)
  obtain r1 x where step: "add_schedule_row r row = (r1, x)" by (cases "add_schedule_row r row")
  with Cons.prems(1) have x: "x = None" and rest: "add_schedule_rows r1 rows = (r', None)"
    by (auto split: option.splits)
  from add_schedule_row_lengths [OF step [unfolded x] Cons.prems(2)]
  have one: "length (event_date r1) = Suc (length (event_date r))"
    "length (event_name r1) = Suc (length (event_name r))"
    "length (event_type r1) = Suc (length (event_type r))"
    "length (event_content r1) = Suc (length (event_content r))"
    "length (valid_grade r1) = 6"
    "\<forall>g<6. length (valid_grade r1 ! g) = Suc (length (valid_grade r ! g))"
    by simp_all
  from Cons.IH [OF rest one(5)] one show ?case by simp
qed

lemma parse_school_schedule_lengths:
  assumes "valid (parse_school_schedule data)"
  shows "length (event_date (parse_school_schedule data)) = schedule_num (parse_school_schedule data)
   \<and> length (event_name (parse_school_schedule data)) = schedule_num (parse_school_schedule data)
   \<and> length (event_type (parse_school_schedule data)) = schedule_num (parse_school_schedule data)
   \<and> length (event_content (parse_school_schedule data)) = schedule_num (parse_school_schedule data)
   \<and> length (valid_grade (parse_school_schedule data)) = 6
   \<and> (\<forall>g<6. length (valid_grade (parse_school_schedule data) ! g) = schedule_num (parse_school_schedule data))"
proof (cases "rows_of data ''SchoolSchedule''")
  case (Inl x)
  with assms show ?thesis by (simp add: parse_school_schedule_def)
next
  case (Inr rows)
  obtain r x where run: "add_schedule_rows (schedule_info_init Initialized) rows = (r, x)"
    by (cases "add_schedule_rows (schedule_info_init Initialized) rows")
  show ?thesis
  proof (cases x)
    case None
    have "length (valid_grade (schedule_info_init Initialized)) = 6"
      by (simp add: schedule_info_init_def)
    from add_schedule_rows_lengths [OF run [unfolded None] this]
    show ?thesis using Inr run None
      by (simp add: parse_school_schedule_def schedule_info_init_def)
  next
    case (Some a)
    with assms Inr run show ?thesis by (simp add: parse_school_schedule_def)
  qed
qed

lemma get_school_schedule_valid:
  assumes "get_school_schedule e code org from_date to_date = (tr, Inr r)" "valid r"
  shows "\<exists>data. r = parse_school_schedule data"
  using assms
  by (auto simp add: get_school_schedule_def schedule_info_init_def Let_def
      split: if_splits sum.splits)

text \<open>
  C10. A result of \<open>get_school_schedule\<close> with \<open>valid = True\<close> has its four event lists
  and each of its six grade lists of length \<open>schedule_num\<close>, so every index that
  \<open>get_school_timetable\<close> reads, for \<open>g\<close> in 0..5 and \<open>sch_idx < schedule_num\<close>, is
  in range.
\<close>

theorem schedule_parallel_arrays:
  assumes "get_school_schedule e code org from_date to_date = (tr, Inr r)" and "valid r"
  shows "length (event_date r) = schedule_num r \<and> length (event_name r) = schedule_num r
       \<and> length (event_type r) = schedule_num r \<and> length (event_content r) = schedule_num r
       \<and> length (valid_grade r) = 6
       \<and> (\<forall>g sch_idx. 0 \<le> g \<and> g \<le> 5 \<and> sch_idx < schedule_num r \<longrightarrow>
            length (valid_grade r ! nat g) = schedule_num r
          \<and> py_index (valid_grade r) g = Inr (valid_grade r ! nat g)
          \<and> py_index (valid_grade r ! nat g) (int sch_idx) = Inr (valid_grade r ! nat g ! sch_idx)
          \<and> py_index (event_date r) (int sch_idx) = Inr (event_date r ! sch_idx)
          \<and> py_index (event_name r) (int sch_idx) = Inr (event_name r ! sch_idx)
          \<and> py_index (event_type r) (int sch_idx) = Inr (event_type r ! sch_idx)
          \<and> py_index (event_content r) (int sch_idx) = Inr (event_content r ! sch_idx))"
proof -
  from get_school_schedule_valid [OF assms] obtain data where r: "r = parse_school_schedule data" ..
  from parse_school_schedule_lengths [of data] assms(2) r
  have len: "length (event_date r) = schedule_num r" "length (event_name r) = schedule_num r"
    "length (event_type r) = schedule_num r" "length (event_content r) = schedule_num r"
    "length (valid_grade r) = 6" "\<forall>g<6. length (valid_grade r ! g) = schedule_num r"
    by simp_all
  have idx: "length (valid_grade r ! nat g) = schedule_num r
          \<and> py_index (valid_grade r) g = Inr (valid_grade r ! nat g)
          \<and> py_index (valid_grade r ! nat g) (int sch_idx) = Inr (valid_grade r ! nat g ! sch_idx)
          \<and> py_index (event_date r) (int sch_idx) = Inr (event_date r ! sch_idx)
          \<and> py_index (event_name r) (int sch_idx) = Inr (event_name r ! sch_idx)
          \<and> py_index (event_type r) (int sch_idx) = Inr (event_type r ! sch_idx)
          \<and> py_index (event_content r) (int sch_idx) = Inr (event_content r ! sch_idx)"
    if "0 \<le> g" "g \<le> 5" "sch_idx < schedule_num r" for g :: int and sch_idx :: nat
  proof -
    from that have "nat g < 6" by arith
    with len(6) have l: "length (valid_grade r ! nat g) = schedule_num r" by blast
    show ?thesis using that l len(1-5) by (simp add: py_index_def)
  qed
  show ?thesis using len(1-5) idx by blast
qed

theorem schedule_parallel_arrays_witness:
  "valid (parse_school_schedule (schedule_payload [founding_day]))
   \<and> schedule_num (parse_school_schedule (schedule_payload [founding_day])) = 1
   \<and> length (event_date (parse_school_schedule (schedule_payload [founding_day]))) = 1
   \<and> py_index (valid_grade (parse_school_schedule (schedule_payload [founding_day]))) 1 = Inr [True]"
proof -
  have run: "get_school_schedule (neis PNone (schedule_payload [founding_day]))
          (PStr (u ''7010574'')) (PStr (u ''J10'')) (u ''20251001'') (u ''20251030'')
     = ([schedule_request (neis PNone (schedule_payload [founding_day]))
          (PStr (u ''7010574'')) (PStr (u ''J10'')) (u ''20251001'') (u ''20251030'')],
        Inr (parse_school_schedule (schedule_payload [founding_day])))"
    by (simp add: get_school_schedule_def neis_def schedule_request_def result_field_def
        dict_get_def bind_err_def schedule_payload_def URL_SCHOOL_INFO_def
        URL_SCHOOL_SCHEDULE_def u_def ord_def)
  have v: "valid (parse_school_schedule (schedule_payload [founding_day]))"
    by (simp add: api_defs)
  have n: "schedule_num (parse_school_schedule (schedule_payload [founding_day])) = 1"
    by (simp add: api_defs)
  have g: "valid_grade (parse_school_schedule (schedule_payload [founding_day])) ! 1 = [True]"
    by (simp add: api_defs)
  from schedule_parallel_arrays [OF run v] n g show ?thesis using v by simp
qed

section \<open>The school resolver\<close>



lemmas info_defs = neis_def get_school_info_def school_info_request_def result_field_def
  dict_get_def bind_err_def parse_school_info_def rows_of_def last_item_def py_iter_def
  school_info_init_def school_info_failed_def add_school_row_def URL_SCHOOL_INFO_def
  URL_SCHOOL_SCHEDULE_def u_def ord_def






section \<open>The timetable aggregator\<close>

lemma add_school_row_lengths:
  assumes "add_school_row r row = (r', None)"
  shows "length (school_name r') = Suc (length (school_name r))
       \<and> length (school_code r') = Suc (length (school_code r))
       \<and> length (org_name r') = Suc (length (org_name r))
       \<and> length (org_code r') = Suc (length (org_code r))"
  using assms by (cases row) (auto simp add: add_school_row_def)

lemma add_school_rows_lengths:
  "add_school_rows r rows = (r', None) \<Longrightarrow>
     length (school_name r') = length (school_name r) + length rows
   \<and> length (school_code r') = length (school_code r) + length rows
   \<and> length (org_name r') = length (org_name r) + length rows
   \<and> length (org_code r') = length (org_code r) + length rows"
proof (induction rows arbitrary: r)
  case Nil
  then show ?case by simp
next
  case (Cons row rows)
  obtain r1 x where step: "add_school_row r row = (r1, x)" by (cases "add_school_row r row")
  with Cons.prems have x: "x = None" and rest: "add_school_rows r1 rows = (r', None)"
    by (auto split: option.splits)
  from add_school_row_lengths [OF step [unfolded x]] Cons.IH [OF rest]
  show ?case by simp
qed

lemma parse_school_info_lengths:
  assumes "valid (parse_school_info data)"
  shows "length (school_name (parse_school_info data)) = school_num (parse_school_info data)
   \<and> length (school_code (parse_school_info data)) = school_num (parse_school_info data)
   \<and> length (org_name (parse_school_info data)) = school_num (parse_school_info data)
   \<and> length (org_code (parse_school_info data)) = school_num (parse_school_info data)"
proof (cases "rows_of data ''schoolInfo''")
  case (Inl x)
  with assms show ?thesis by (simp add: parse_school_info_def school_info_failed_def)
next
  case (Inr rows)
  obtain r x where run: "add_school_rows (school_info_init Initialized) rows = (r, x)"
    by (cases "add_school_rows (school_info_init Initialized) rows")
  show ?thesis
  proof (cases x)
    case None
    from add_school_rows_lengths [OF run [unfolded None]]
    show ?thesis using Inr run None
      by (simp add: parse_school_info_def school_info_init_def)
  next
    case (Some a)
    with assms Inr run show ?thesis by (simp add: parse_school_info_def school_info_failed_def)
  qed
qed

lemma get_school_info_valid:
  assumes "get_school_info e name = (tr, Inr info)" "valid info"
  shows "service_key e \<noteq> [] \<and> tr = [school_info_request e name]
       \<and> (\<exists>data. info = parse_school_info data)"
  using assms
  by (auto simp add: get_school_info_def school_info_init_def Let_def
      split: if_splits sum.splits)

lemma get_school_schedule_trace:
  "service_key e \<noteq> [] \<Longrightarrow>
   fst (get_school_schedule e code org from_date to_date)
     = [schedule_request e code org from_date to_date]"
  by (simp add: get_school_schedule_def Let_def split: sum.splits)

lemma query_match_trace:
  assumes "service_key e \<noteq> []" "idx < length (school_code info)" "idx < length (org_code info)"
  shows "fst (query_match e info from_date to_date grades idx)
     = [schedule_request e (school_code info ! idx) (org_code info ! idx) from_date to_date]"
proof -
  obtain tr r where g: "get_school_schedule e (school_code info ! idx) (org_code info ! idx)
      from_date to_date = (tr, r)"
    by (cases "get_school_schedule e (school_code info ! idx) (org_code info ! idx) from_date to_date")
  with get_school_schedule_trace [OF assms(1), of "school_code info ! idx" "org_code info ! idx"
      from_date to_date]
  have tr: "tr = [schedule_request e (school_code info ! idx) (org_code info ! idx) from_date to_date]"
    by simp
  from assms(2,3) g tr show ?thesis
    by (simp add: query_match_def py_index_def split: sum.splits)
qed

lemma match_loop_trace:
  assumes "service_key e \<noteq> []"
  shows "\<forall>i \<in> set idxs. i < length (org_name info) \<and> i < length (school_code info)
            \<and> i < length (org_code info) \<Longrightarrow>
     fst (match_loop e info from_date to_date grades target_org idxs)
       = (case find (\<lambda>i. accepts target_org (org_name info ! i)) idxs of
            None \<Rightarrow> []
          | Some i \<Rightarrow> [schedule_request e (school_code info ! i) (org_code info ! i)
                         from_date to_date])"
proof (induction idxs)
  case Nil
  then show ?case by simp
next
  case (Cons idx idxs)
  from Cons.prems have b: "idx < length (org_name info)" "idx < length (school_code info)"
    "idx < length (org_code info)" by simp_all
  from Cons.prems have rest: "\<forall>i \<in> set idxs. i < length (org_name info)
      \<and> i < length (school_code info) \<and> i < length (org_code info)" by simp
  note q = query_match_trace [OF assms b(2,3), of from_date to_date grades]
  show ?case
  proof (cases target_org)
    case None
    then show ?thesis using q by (simp add: accepts_def)
  next
    case (Some t)
    show ?thesis
    proof (cases "org_name info ! idx = PStr t")
      case True
      with Some b(1) q show ?thesis by (simp add: accepts_def py_index_def)
    next
      case False
      with Some b(1) Cons.IH [OF rest] show ?thesis by (simp add: accepts_def py_index_def)
    qed
  qed
qed

text \<open>
  C3. When the resolution is valid with two or more matches, \<open>get_school_timetable\<close>
  sends, after the school lookup, exactly one schedule request, for the first match whose
  organization name the filter accepts (none when the filter accepts no match), whatever
  that fetch returns.
\<close>

theorem single_school_policy:
  assumes "get_school_info e name = (tr, Inr info)" and "valid info" and "2 \<le> school_num info"
  shows "fst (get_school_timetable e name from_date to_date grade target_org)
     = school_info_request e name #
       (case first_accepted target_org (org_name info) of
          None \<Rightarrow> []
        | Some i \<Rightarrow> [schedule_request e (school_code info ! i) (org_code info ! i)
                       from_date to_date])"
proof -
  from get_school_info_valid [OF assms(1,2)] obtain data
    where key: "service_key e \<noteq> []" and tr: "tr = [school_info_request e name]"
      and info: "info = parse_school_info data" by blast
  from parse_school_info_lengths [of data] assms(2) info
  have len: "length (school_code info) = school_num info"
    "length (org_name info) = school_num info" "length (org_code info) = school_num info"
    by simp_all
  have "\<forall>i \<in> set [0 ..< school_num info]. i < length (org_name info)
      \<and> i < length (school_code info) \<and> i < length (org_code info)"
    using len by simp
  from match_loop_trace [OF key this, of from_date to_date "target_grade grade" target_org]
  have loop: "fst (match_loop e info from_date to_date (target_grade grade) target_org
                    [0 ..< school_num info])
       = (case first_accepted target_org (org_name info) of
            None \<Rightarrow> []
          | Some i \<Rightarrow> [schedule_request e (school_code info ! i) (org_code info ! i)
                         from_date to_date])"
    by (simp add: first_accepted_def len)
  from assms(3) have pos: "0 < school_num info" by simp
  obtain tr' r where m: "match_loop e info from_date to_date (target_grade grade) target_org
      [0 ..< school_num info] = (tr', r)"
    by (cases "match_loop e info from_date to_date (target_grade grade) target_org
      [0 ..< school_num info]")
  with loop have tr': "tr' = (case first_accepted target_org (org_name info) of
            None \<Rightarrow> []
          | Some i \<Rightarrow> [schedule_request e (school_code info ! i) (org_code info ! i)
                         from_date to_date])"
    by simp
  show ?thesis
    using assms(1,2) pos tr m tr'
    by (simp add: get_school_timetable_def)
qed


text \<open>Two matches of one name; the filter selects the second, and only it is queried.\<close>

theorem single_school_policy_witness:
  "school_num (parse_school_info two_schools) = 2
   \<and> org_name (parse_school_info two_schools) = [PStr (u ''Seoul''), PStr (u ''Gyeonggi'')]
   \<and> fst (get_school_timetable (neis two_schools (schedule_payload [founding_day]))
            (u ''Hansol'') (u ''20251001'') (u ''20251030'') [1, 2, 3] (Some (u ''Gyeonggi'')))
     = [school_info_request (neis two_schools (schedule_payload [founding_day])) (u ''Hansol''),
        schedule_request (neis two_schools (schedule_payload [founding_day]))
          (PStr (u ''7530001'')) (PStr (u ''J10'')) (u ''20251001'') (u ''20251030'')]"
proof -
  let ?e = "neis two_schools (schedule_payload [founding_day])"
  have run: "get_school_info ?e (u ''Hansol'')
      = ([school_info_request ?e (u ''Hansol'')], Inr (parse_school_info two_schools))"
    by (simp add: neis_def get_school_info_def school_info_request_def result_field_def
        dict_get_def bind_err_def two_schools_def URL_SCHOOL_INFO_def u_def ord_def)
  have info: "parse_school_info two_schools
      = \<lparr>valid = True, message = Success_to_find, school_num = 2,
         school_name = [PStr (u ''Hansol''), PStr (u ''Hansol'')],
         school_code = [PStr (u ''7010574''), PStr (u ''7530001'')],
         org_name = [PStr (u ''Seoul''), PStr (u ''Gyeonggi'')],
         org_code = [PStr (u ''B10''), PStr (u ''J10'')]\<rparr>"
    by (simp add: two_schools_def school_row_def info_defs)
  have v: "valid (parse_school_info two_schools)" by (simp add: info)
  have n: "2 \<le> school_num (parse_school_info two_schools)" by (simp add: info)
  have two: "[0 ..< 2] = [0, Suc 0]" by (simp add: upt_rec)
  have f: "first_accepted (Some (u ''Gyeonggi'')) (org_name (parse_school_info two_schools))
      = Some 1"
    by (simp add: info first_accepted_def accepts_def two u_def ord_def)
  from single_school_policy [OF run v n, of "u ''20251001''" "u ''20251030''" "[1, 2, 3]"
      "Some (u ''Gyeonggi'')"]
  show ?thesis unfolding f by (simp add: info)
qed

section \<open>Default grades\<close>

lemma sublist_dropWhile:
  assumes "tok \<noteq> []" and "\<not> P (hd tok)"
  shows "sublist tok (dropWhile P s) \<longleftrightarrow> sublist tok s"
proof
  assume "sublist tok (dropWhile P s)"
  moreover have "sublist (dropWhile P s) s"
    by (rule suffix_imp_sublist) (rule suffix_dropWhile)
  ultimately show "sublist tok s" by (rule sublist_order.order.trans)
next
  show "sublist tok s \<Longrightarrow> sublist tok (dropWhile P s)"
  proof (induction s)
    case Nil
    then show ?case by simp
  next
    case (Cons x xs)
    show ?case
    proof (cases "P x")
      case True
      from Cons.prems have "prefix tok (x # xs) \<or> sublist tok xs"
        by (simp add: sublist_Cons_right)
      moreover have "\<not> prefix tok (x # xs)"
      proof
        assume "prefix tok (x # xs)"
        with assms(1) have "hd tok = x" by (cases tok) auto
        with assms(2) True show False by simp
      qed
      ultimately have "sublist tok xs" by blast
      with Cons.IH True show ?thesis by simp
    next
      case False
      with Cons.prems show ?thesis by simp
    qed
  qed
qed

lemma contains_strip:
  assumes "tok \<noteq> []" and "\<not> isspace_char (hd tok)" and "\<not> isspace_char (last tok)"
  shows "contains (strip s) tok \<longleftrightarrow> contains s tok"
proof -
  have r: "rev tok \<noteq> []" "\<not> isspace_char (hd (rev tok))"
    using assms by (simp_all add: hd_rev)
  have "sublist tok (strip s)
      \<longleftrightarrow> sublist (rev tok) (dropWhile isspace_char (rev (dropWhile isspace_char s)))"
    unfolding strip_def by (metis sublist_rev rev_rev_ident)
  also have "\<dots> \<longleftrightarrow> sublist (rev tok) (rev (dropWhile isspace_char s))"
    using sublist_dropWhile [of "rev tok" isspace_char "rev (dropWhile isspace_char s)"] r
    by simp
  also have "\<dots> \<longleftrightarrow> sublist tok (dropWhile isspace_char s)" by simp
  also have "\<dots> \<longleftrightarrow> sublist tok s"
    using sublist_dropWhile [of tok isspace_char s] assms(1,2) by simp
  finally show ?thesis by (simp add: contains_def)
qed

lemma detect_elementary:
  "detect_school_level name = Some elementary \<longleftrightarrow> contains name elementary"
proof -
  have ne: "middle \<noteq> elementary" "high \<noteq> elementary"
    by (simp_all add: middle_def high_def elementary_def)
  have "contains (strip name) elementary \<longleftrightarrow> contains name elementary"
    by (rule contains_strip)
      (simp_all add: elementary_def isspace_char_def in_ranges_def space_ranges_def)
  with ne show ?thesis by (simp add: detect_school_level_def Let_def)
qed

section \<open>The date normalizer on compact dates\<close>

lemma decimal_value_ascii: "ascii_digit c \<Longrightarrow> decimal_value c = Some (c - 48)"
  by (simp add: ascii_digit_def decimal_value_def decimal_blocks_def)

lemma isdecimal_ascii: "ascii_digit c \<Longrightarrow> isdecimal_char c"
  by (simp add: isdecimal_char_def decimal_value_ascii)

lemma not_space_ascii: "ascii_digit c \<Longrightarrow> \<not> isspace_char c"
  by (simp add: ascii_digit_def isspace_char_def in_ranges_def space_ranges_def)

lemma isdigit_ascii: "ascii_digit c \<Longrightarrow> isdigit_char c"
  by (simp add: isdigit_char_def isdecimal_ascii)

lemma days_in_month_le: "days_in_month y m \<le> 31"
  by (simp add: days_in_month_def)

lemma run_Y:
  assumes "isdecimal_char a" "isdecimal_char b" "isdecimal_char c" "isdecimal_char d"
  shows "rx_run (the (directive CHR ''Y'')) (a # b # c # d # rest)
     = [([(CHR ''Y'', [a, b, c, d])], rest)]"
  using assms by (simp add: directive_def)

lemma match_m2:
  assumes "(a = 49 \<and> 48 \<le> b \<and> b \<le> 50) \<or> (a = 48 \<and> 49 \<le> b \<and> b \<le> 57)"
  shows "re_match (the (directive CHR ''m'')) (a # b # rest) = Some ([(CHR ''m'', [a, b])], rest)"
  using assms by (auto simp add: directive_def re_match_def ch_def rng_def ord_def)

lemma match_d2:
  assumes "(a = 51 \<and> 48 \<le> b \<and> b \<le> 49) \<or> (49 \<le> a \<and> a \<le> 50 \<and> isdecimal_char b)
            \<or> (a = 48 \<and> 49 \<le> b \<and> b \<le> 57)"
  shows "re_match (the (directive CHR ''d'')) (a # b # rest) = Some ([(CHR ''d'', [a, b])], rest)"
  using assms by (auto simp add: directive_def re_match_def ch_def rng_def ord_def)

lemma match_seq:
  assumes "re_match a s = Some (g1, s1)" and "re_match b s1 = Some (g2, s2)"
  shows "re_match (Seq a b) s = Some (g1 @ g2, s2)"
  using assms by (auto simp add: re_match_def split: list.splits)

lemma match_eps: "re_match Eps s = Some ([], s)"
  by (simp add: re_match_def)

lemma pattern_Ymd:
  "pattern ''%Y%m%d''
     = Some (Seq (the (directive CHR ''Y'')) (Seq (the (directive CHR ''m''))
              (Seq (the (directive CHR ''d'')) Eps)))"
  by (simp add: directive_def)


lemma strip_id:
  assumes "s \<noteq> []" "\<not> isspace_char (hd s)" "\<not> isspace_char (last s)"
  shows "strip s = s"
proof -
  from assms(1,2) have a: "dropWhile isspace_char s = s" by (cases s) simp_all
  from assms(1,3) have b: "dropWhile isspace_char (rev s) = rev s"
    by (cases "rev s") (simp_all add: hd_rev [symmetric])
  show ?thesis by (simp add: strip_def a b)
qed

lemma py_int4:
  assumes "ascii_digit a" "ascii_digit b" "ascii_digit c" "ascii_digit d"
  shows "py_int [a, b, c, d] = Some (1000 * (a - 48) + 100 * (b - 48) + 10 * (c - 48) + (d - 48))"
proof -
  have "strip [a, b, c, d] = [a, b, c, d]"
    using assms by (intro strip_id) (simp_all add: not_space_ascii)
  then show ?thesis using assms by (simp add: py_int_def decimal_value_ascii)
qed

lemma py_int2:
  assumes "ascii_digit a" "ascii_digit b"
  shows "py_int [a, b] = Some (10 * (a - 48) + (b - 48))"
proof -
  have "strip [a, b] = [a, b]"
    using assms by (intro strip_id) (simp_all add: not_space_ascii)
  then show ?thesis using assms by (simp add: py_int_def decimal_value_ascii)
qed

text \<open>The compact form, character by character.\<close>

lemma strptime_compact:
  assumes dig: "ascii_digit a" "ascii_digit b" "ascii_digit c" "ascii_digit d"
               "ascii_digit e" "ascii_digit f" "ascii_digit g" "ascii_digit h"
      and v: "valid_ymd (1000 * (a - 48) + 100 * (b - 48) + 10 * (c - 48) + (d - 48))
                (10 * (e - 48) + (f - 48)) (10 * (g - 48) + (h - 48))"
  shows "strptime [a, b, c, d, e, f, g, h] ''%Y%m%d''
     = Inr (Datetime (1000 * (a - 48) + 100 * (b - 48) + 10 * (c - 48) + (d - 48))
              (10 * (e - 48) + (f - 48)) (10 * (g - 48) + (h - 48)) 0 0 0)"
proof -
  let ?y = "1000 * (a - 48) + 100 * (b - 48) + 10 * (c - 48) + (d - 48)"
  let ?m = "10 * (e - 48) + (f - 48)"
  let ?d = "10 * (g - 48) + (h - 48)"
  have mY: "re_match (the (directive CHR ''Y'')) [a, b, c, d, e, f, g, h]
      = Some ([(CHR ''Y'', [a, b, c, d])], [e, f, g, h])"
    using run_Y [of a b c d "[e, f, g, h]"] dig(1-4)
    by (simp add: re_match_def isdecimal_ascii)
  from v dig(5,6) have "(e = 49 \<and> 48 \<le> f \<and> f \<le> 50) \<or> (e = 48 \<and> 49 \<le> f \<and> f \<le> 57)"
    unfolding valid_ymd_def ascii_digit_def by arith
  from match_m2 [OF this]
  have mm: "re_match (the (directive CHR ''m'')) [e, f, g, h] = Some ([(CHR ''m'', [e, f])], [g, h])" .
  from v have "10 * (g - 48) + (h - 48) \<le> 31" "1 \<le> 10 * (g - 48) + (h - 48)"
    using days_in_month_le [of ?y ?m] unfolding valid_ymd_def by simp_all
  with dig(7,8) have "(g = 51 \<and> 48 \<le> h \<and> h \<le> 49) \<or> (49 \<le> g \<and> g \<le> 50 \<and> isdecimal_char h)
            \<or> (g = 48 \<and> 49 \<le> h \<and> h \<le> 57)"
    using isdecimal_ascii [OF dig(8)] unfolding ascii_digit_def by arith
  from match_d2 [OF this]
  have md: "re_match (the (directive CHR ''d'')) [g, h] = Some ([(CHR ''d'', [g, h])], [])" .
  from match_seq [OF mY match_seq [OF mm match_seq [OF md match_eps]]]
  have m: "re_match (Seq (the (directive CHR ''Y'')) (Seq (the (directive CHR ''m''))
              (Seq (the (directive CHR ''d'')) Eps))) [a, b, c, d, e, f, g, h]
      = Some ([(CHR ''Y'', [a, b, c, d]), (CHR ''m'', [e, f]), (CHR ''d'', [g, h])], [])"
    by simp
  have dt: "datetime_new ?y ?m ?d 0 0 0 = Inr (Datetime ?y ?m ?d 0 0 0)"
    using v by (simp add: datetime_new_def valid_ymd_def)
  show ?thesis
    unfolding strptime_def pattern_Ymd
    by (simp add: m field_def bind_err_def py_int4 py_int2 dig dt)
qed

lemma to_yyyymmdd_compact:
  assumes dig: "ascii_digit a" "ascii_digit b" "ascii_digit c" "ascii_digit d"
               "ascii_digit e" "ascii_digit f" "ascii_digit g" "ascii_digit h"
      and v: "valid_ymd (1000 * (a - 48) + 100 * (b - 48) + 10 * (c - 48) + (d - 48))
                (10 * (e - 48) + (f - 48)) (10 * (g - 48) + (h - 48))"
  shows "to_yyyymmdd [a, b, c, d, e, f, g, h] = Inr [a, b, c, d, e, f, g, h]"
proof -
  have s: "strip [a, b, c, d, e, f, g, h] = [a, b, c, d, e, f, g, h]"
    using dig by (intro strip_id) (simp_all add: not_space_ascii)
  have i: "isdigit [a, b, c, d, e, f, g, h]"
    using dig by (simp add: isdigit_def isdigit_ascii)
  show ?thesis
    unfolding to_yyyymmdd_def s Let_def
    by (simp add: i strptime_compact [OF dig v] bind_err_def)
qed

text \<open>
  C6. A string of eight digits that is a valid calendar date (year 0001 to 9999, a month
  of that year, a day of that month) is returned unchanged.
\<close>

theorem normalize_compact_identity:
  assumes "is_date8 s"
  shows "to_yyyymmdd s = Inr s"
proof -
  from assms have len: "length s = 8" by (simp add: is_date8_def)
  then obtain a b c d e f g h where s: "s = [a, b, c, d, e, f, g, h]"
    by (auto simp add: length_Suc_conv eval_nat_numeral)
  from assms s have dig: "ascii_digit a" "ascii_digit b" "ascii_digit c" "ascii_digit d"
      "ascii_digit e" "ascii_digit f" "ascii_digit g" "ascii_digit h"
    by (simp_all add: is_date8_def)
  from assms s have v: "valid_ymd (1000 * (a - 48) + 100 * (b - 48) + 10 * (c - 48) + (d - 48))
      (10 * (e - 48) + (f - 48)) (10 * (g - 48) + (h - 48))"
    by (simp add: is_date8_def number_def algebra_simps)
  from to_yyyymmdd_compact [OF dig v] s show ?thesis by simp
qed

theorem normalize_compact_identity_witness:
  "is_date8 (u ''20240229'') \<and> to_yyyymmdd (u ''20240229'') = Inr (u ''20240229'')"
proof -
  have h: "is_date8 (u ''20240229'')"
    by (simp add: is_date8_def u_def ord_def ascii_digit_def number_def valid_ymd_def
        days_in_month_def is_leap_def)
  from normalize_compact_identity [OF h] h show ?thesis by simp
qed

section \<open>Failures of the date normalizer\<close>








lemma isdecimal_numerals:
  "isdecimal_char 48" "isdecimal_char 49" "isdecimal_char 50" "isdecimal_char 51"
  "isdecimal_char 54" "\<not> isdecimal_char 32"
  by (simp_all add: isdecimal_char_def decimal_value_def decimal_blocks_def)

lemma directive_min_digits:
  "min_digits (the (directive CHR ''Y'')) = 4" "min_digits (the (directive CHR ''m'')) = 1"
  "min_digits (the (directive CHR ''d'')) = 1" "min_digits (the (directive CHR ''H'')) = 1"
  "min_digits (the (directive CHR ''M'')) = 1" "min_digits (the (directive CHR ''S'')) = 1"
  by (simp_all add: directive_def ch_def rng_def ord_def isdecimal_numerals)




lemma digit_count_rev [simp]: "digit_count (rev s) = digit_count s"
  by (simp add: digit_count_def flip: rev_filter)



lemma try_formats_no_error: "try_formats s fmts = None \<or> (\<exists>r. try_formats s fmts = Some r)"
  by (cases "try_formats s fmts") simp_all

















section \<open>Years below 1000\<close>

text \<open>
  C4. The specification has every accepted representation of a date normalize to the
  same string of eight digits. The code at the date 0999-01-01: the compact form is
  returned as it is, while the separator form goes through \<open>strftime\<close>, which does not
  pad the year, and comes out with seven characters.
\<close>

theorem normalize_year_below_1000:
  "to_yyyymmdd (u ''0999-01-01'') = Inr (u ''9990101'')
   \<and> to_yyyymmdd (u ''09990101'') = Inr (u ''09990101'')
   \<and> length (u ''9990101'') = 7"
  by (simp add: string_defs normalizer_defs)

section \<open>The representations of a date from the year 1000 on\<close>

text \<open>
  From the year 1000 on the year takes four digits on every path. The representations of
  one date that are written with zero-filled fields (the separator form, alone or followed
  by a space and a zero-filled time) and the Korean long form normalize to its compact
  form (\<open>normalize_forms_agree\<close>). Nothing is stated here about a separator form with a
  one-digit month or day, or with another spelling of the time.
\<close>

lemmas pattern_eval = date_then_def hm_rx_def s_rx_def directive_def isspace_char_def
  in_ranges_def space_ranges_def ord_def

lemma pattern_dates:
  "pattern ''%Y-%m-%d'' = Some (date_then 45 Eps)"
  "pattern ''%Y/%m/%d'' = Some (date_then 47 Eps)"
  "pattern ''%Y.%m.%d'' = Some (date_then 46 Eps)"
  by (simp_all add: pattern_eval)

lemma pattern_times:
  "pattern ''%Y-%m-%d %H:%M'' = Some (date_then 45 (hm_rx 32 Eps))"
  "pattern ''%Y-%m-%d %H:%M:%S'' = Some (date_then 45 (hm_rx 32 s_rx))"
  "pattern ''%Y/%m/%d %H:%M'' = Some (date_then 47 (hm_rx 32 Eps))"
  "pattern ''%Y/%m/%d %H:%M:%S'' = Some (date_then 47 (hm_rx 32 s_rx))"
  "pattern ''%Y.%m.%d %H:%M'' = Some (date_then 46 (hm_rx 32 Eps))"
  "pattern ''%Y.%m.%d %H:%M:%S'' = Some (date_then 46 (hm_rx 32 s_rx))"
  "pattern ''%Y-%m-%dT%H:%M'' = Some (date_then 45 (hm_rx 84 Eps))"
  "pattern ''%Y-%m-%dT%H:%M:%S'' = Some (date_then 45 (hm_rx 84 s_rx))"
  by (simp_all add: pattern_eval)

lemma two_digits:
  fixes n :: nat
  assumes "n < 100"
  shows "n div 10 < 10 \<and> n div 10 mod 10 = n div 10 \<and> n mod 10 < 10
       \<and> 10 * (n div 10) + n mod 10 = n"
proof -
  from assms have "n div 10 < 10" by (simp add: div_less_iff_less_mult)
  then show ?thesis by simp
qed

lemma four_digits:
  fixes n :: nat
  assumes "n < 10000"
  shows "n div 1000 mod 10 = n div 1000 \<and> n div 1000 < 10
       \<and> 1000 * (n div 1000) + 100 * (n div 100 mod 10) + 10 * (n div 10 mod 10) + n mod 10 = n"
proof -
  from assms have a: "n div 1000 < 10" by (simp add: div_less_iff_less_mult)
  have e1: "n = 10 * (n div 10) + n mod 10" by simp
  have e2: "n div 10 = 10 * (n div 10 div 10) + n div 10 mod 10" by simp
  have e3: "n div 100 = 10 * (n div 100 div 10) + n div 100 mod 10" by simp
  have d2: "n div 10 div 10 = n div 100" by (simp add: div_mult2_eq [symmetric])
  have d3: "n div 100 div 10 = n div 1000" by (simp add: div_mult2_eq [symmetric])
  define q1 where "q1 = n div 10"
  define q2 where "q2 = n div 100"
  define q3 where "q3 = n div 1000"
  define r0 where "r0 = n mod 10"
  define r1 where "r1 = n div 10 mod 10"
  define r2 where "r2 = n div 100 mod 10"
  from e1 have f1: "n = 10 * q1 + r0" by (simp add: q1_def r0_def)
  have f2: "q1 = 10 * q2 + r1" unfolding q1_def q2_def r1_def d2 [symmetric] by (rule e2)
  have f3: "q2 = 10 * q3 + r2" unfolding q2_def q3_def r2_def d3 [symmetric] by (rule e3)
  from f1 f2 f3 have "1000 * q3 + 100 * r2 + 10 * r1 + r0 = n" by simp
  then have "1000 * (n div 1000) + 100 * (n div 100 mod 10) + 10 * (n div 10 mod 10) + n mod 10 = n"
    by (simp add: q3_def r2_def r1_def r0_def)
  with a show ?thesis by simp
qed

lemma zfill2_split:
  assumes "n < 100"
  obtains q r where "q < 10" "r < 10" "n = 10 * q + r" "zfill2 n = [48 + q, 48 + r]"
proof
  from two_digits [OF assms]
  show "n div 10 < 10" "n mod 10 < 10" "n = 10 * (n div 10) + n mod 10"
    "zfill2 n = [48 + n div 10, 48 + n mod 10]"
    by (simp_all add: zfill2_def)
qed

lemma zfill4_split:
  assumes "n < 10000"
  obtains a b c d where "a < 10" "b < 10" "c < 10" "d < 10"
    "n = 1000 * a + 100 * b + 10 * c + d" "zfill4 n = [48 + a, 48 + b, 48 + c, 48 + d]"
proof
  from four_digits [OF assms]
  show "n div 1000 < 10" "n div 100 mod 10 < 10" "n div 10 mod 10 < 10" "n mod 10 < 10"
    "n = 1000 * (n div 1000) + 100 * (n div 100 mod 10) + 10 * (n div 10 mod 10) + n mod 10"
    "zfill4 n = [48 + n div 1000, 48 + n div 100 mod 10, 48 + n div 10 mod 10, 48 + n mod 10]"
    by (simp_all add: zfill4_def)
qed

lemma py_int_zfill2: "n < 100 \<Longrightarrow> py_int (zfill2 n) = Some n"
proof -
  assume "n < 100"
  then obtain q r where d: "q < 10" "r < 10" "n = 10 * q + r" "zfill2 n = [48 + q, 48 + r]"
    by (rule zfill2_split)
  from d(1,2) have "py_int [48 + q, 48 + r] = Some (10 * (48 + q - 48) + (48 + r - 48))"
    by (intro py_int2) (simp_all add: ascii_digit_def)
  with d(3,4) show ?thesis by simp
qed

lemma py_int_zfill4: "n < 10000 \<Longrightarrow> py_int (zfill4 n) = Some n"
proof -
  assume "n < 10000"
  then obtain a b c d where d: "a < 10" "b < 10" "c < 10" "d < 10"
    "n = 1000 * a + 100 * b + 10 * c + d" "zfill4 n = [48 + a, 48 + b, 48 + c, 48 + d]"
    by (rule zfill4_split)
  from d(1-4) have "py_int [48 + a, 48 + b, 48 + c, 48 + d]
      = Some (1000 * (48 + a - 48) + 100 * (48 + b - 48) + 10 * (48 + c - 48) + (48 + d - 48))"
    by (intro py_int4) (simp_all add: ascii_digit_def)
  with d(5,6) show ?thesis by simp
qed

lemma match_Y_zfill:
  "re_match (the (directive CHR ''Y'')) (zfill4 y @ rest) = Some ([(CHR ''Y'', zfill4 y)], rest)"
  using run_Y [of "48 + y div 1000 mod 10" "48 + y div 100 mod 10" "48 + y div 10 mod 10"
      "48 + y mod 10" rest]
  by (simp add: zfill4_def re_match_def isdecimal_ascii ascii_digit_def)

lemma match_m_zfill:
  assumes "1 \<le> m" "m \<le> 12"
  shows "re_match (the (directive CHR ''m'')) (zfill2 m @ rest) = Some ([(CHR ''m'', zfill2 m)], rest)"
proof -
  from assms have "m < 100" by simp
  then obtain q r where d: "q < 10" "r < 10" "m = 10 * q + r" "zfill2 m = [48 + q, 48 + r]"
    by (rule zfill2_split)
  from assms d(1-3) have "(48 + q = 49 \<and> 48 \<le> 48 + r \<and> 48 + r \<le> 50)
      \<or> (48 + q = 48 \<and> 49 \<le> 48 + r \<and> 48 + r \<le> 57)"
    by arith
  from match_m2 [OF this, of rest] d(4) show ?thesis by simp
qed

lemma match_d_zfill:
  assumes "1 \<le> d" "d \<le> 31"
  shows "re_match (the (directive CHR ''d'')) (zfill2 d @ rest) = Some ([(CHR ''d'', zfill2 d)], rest)"
proof -
  from assms have "d < 100" by simp
  then obtain q r where e: "q < 10" "r < 10" "d = 10 * q + r" "zfill2 d = [48 + q, 48 + r]"
    by (rule zfill2_split)
  from e(2) have dec: "isdecimal_char (48 + r)" by (simp add: isdecimal_ascii ascii_digit_def)
  from assms e(1-3) have "(48 + q = 51 \<and> 48 \<le> 48 + r \<and> 48 + r \<le> 49)
      \<or> (49 \<le> 48 + q \<and> 48 + q \<le> 50)
      \<or> (48 + q = 48 \<and> 49 \<le> 48 + r \<and> 48 + r \<le> 57)"
    by arith
  with dec have "(48 + q = 51 \<and> 48 \<le> 48 + r \<and> 48 + r \<le> 49)
      \<or> (49 \<le> 48 + q \<and> 48 + q \<le> 50 \<and> isdecimal_char (48 + r))
      \<or> (48 + q = 48 \<and> 49 \<le> 48 + r \<and> 48 + r \<le> 57)"
    by blast
  from match_d2 [OF this, of rest] e(4) show ?thesis by simp
qed

lemma match_H2:
  assumes "(a = 50 \<and> 48 \<le> b \<and> b \<le> 51) \<or> (48 \<le> a \<and> a \<le> 49 \<and> isdecimal_char b)"
  shows "re_match (the (directive CHR ''H'')) (a # b # rest) = Some ([(CHR ''H'', [a, b])], rest)"
  using assms by (auto simp add: directive_def re_match_def ch_def rng_def ord_def)

lemma match_M2:
  assumes "48 \<le> a \<and> a \<le> 53 \<and> isdecimal_char b"
  shows "re_match (the (directive CHR ''M'')) (a # b # rest) = Some ([(CHR ''M'', [a, b])], rest)"
  using assms by (auto simp add: directive_def re_match_def ch_def rng_def ord_def)

lemma match_S2:
  assumes "48 \<le> a \<and> a \<le> 53 \<and> isdecimal_char b"
  shows "re_match (the (directive CHR ''S'')) (a # b # rest) = Some ([(CHR ''S'', [a, b])], rest)"
  using assms by (auto simp add: directive_def re_match_def ch_def rng_def ord_def)

lemma match_H_zfill:
  assumes "hh \<le> 23"
  shows "re_match (the (directive CHR ''H'')) (zfill2 hh @ rest) = Some ([(CHR ''H'', zfill2 hh)], rest)"
proof -
  from assms have "hh < 100" by simp
  then obtain q r where e: "q < 10" "r < 10" "hh = 10 * q + r" "zfill2 hh = [48 + q, 48 + r]"
    by (rule zfill2_split)
  from e(2) have dec: "isdecimal_char (48 + r)" by (simp add: isdecimal_ascii ascii_digit_def)
  from assms e(1-3) have "(48 + q = 50 \<and> 48 \<le> 48 + r \<and> 48 + r \<le> 51) \<or> (48 \<le> 48 + q \<and> 48 + q \<le> 49)"
    by arith
  with dec have "(48 + q = 50 \<and> 48 \<le> 48 + r \<and> 48 + r \<le> 51)
      \<or> (48 \<le> 48 + q \<and> 48 + q \<le> 49 \<and> isdecimal_char (48 + r))" by blast
  from match_H2 [OF this, of rest] e(4) show ?thesis by simp
qed

lemma match_M_zfill:
  assumes "mi \<le> 59"
  shows "re_match (the (directive CHR ''M'')) (zfill2 mi @ rest) = Some ([(CHR ''M'', zfill2 mi)], rest)"
proof -
  from assms have "mi < 100" by simp
  then obtain q r where e: "q < 10" "r < 10" "mi = 10 * q + r" "zfill2 mi = [48 + q, 48 + r]"
    by (rule zfill2_split)
  from e(2) have dec: "isdecimal_char (48 + r)" by (simp add: isdecimal_ascii ascii_digit_def)
  from assms e(1-3) have "48 \<le> 48 + q \<and> 48 + q \<le> 53" by arith
  with dec have "48 \<le> 48 + q \<and> 48 + q \<le> 53 \<and> isdecimal_char (48 + r)" by blast
  from match_M2 [OF this, of rest] e(4) show ?thesis by simp
qed

lemma match_S_zfill:
  assumes "ss \<le> 59"
  shows "re_match (the (directive CHR ''S'')) (zfill2 ss @ rest) = Some ([(CHR ''S'', zfill2 ss)], rest)"
proof -
  from assms have "ss < 100" by simp
  then obtain q r where e: "q < 10" "r < 10" "ss = 10 * q + r" "zfill2 ss = [48 + q, 48 + r]"
    by (rule zfill2_split)
  from e(2) have dec: "isdecimal_char (48 + r)" by (simp add: isdecimal_ascii ascii_digit_def)
  from assms e(1-3) have "48 \<le> 48 + q \<and> 48 + q \<le> 53" by arith
  with dec have "48 \<le> 48 + q \<and> 48 + q \<le> 53 \<and> isdecimal_char (48 + r)" by blast
  from match_S2 [OF this, of rest] e(4) show ?thesis by simp
qed

lemma match_chr: "re_match (One (ChrI k)) (k # rest) = Some ([], rest)"
  by (simp add: re_match_def)

lemma match_date_then:
  assumes "1 \<le> m" "m \<le> 12" "1 \<le> d" "d \<le> 31" and r: "re_match r t = Some (g, t')"
  shows "re_match (date_then sep r) (sep_form sep y m d @ t)
     = Some ([(CHR ''Y'', zfill4 y), (CHR ''m'', zfill2 m), (CHR ''d'', zfill2 d)] @ g, t')"
proof -
  note md = match_seq [OF match_d_zfill [OF assms(3,4)] r]
  note ms = match_seq [OF match_chr md]
  note mm = match_seq [OF match_m_zfill [OF assms(1,2)] ms]
  note mc = match_seq [OF match_chr mm]
  note my = match_seq [OF match_Y_zfill mc]
  from my [of sep sep y] show ?thesis by (simp add: date_then_def sep_form_def)
qed

lemma no_match_date_then:
  assumes "lower_ascii c \<noteq> lower_ascii sep"
  shows "re_match (date_then sep r) (zfill4 y @ c # rest) = None"
  using assms run_Y [of "48 + y div 1000 mod 10" "48 + y div 100 mod 10" "48 + y div 10 mod 10"
      "48 + y mod 10" "c # rest"]
  by (simp add: date_then_def zfill4_def re_match_def isdecimal_ascii ascii_digit_def)

lemma valid_ymd_bounds:
  assumes "valid_ymd y m d"
  shows "1 \<le> m" "m \<le> 12" "1 \<le> d" "d \<le> 31" "y < 10000" "m < 100" "d < 100"
  using assms days_in_month_le [of y m] by (simp_all add: valid_ymd_def)

lemma strptime_date_ok:
  assumes v: "valid_ymd y m d" and p: "pattern fmt = Some (date_then sep Eps)"
  shows "strptime (sep_form sep y m d) fmt = Inr (Datetime y m d 0 0 0)"
proof -
  note b = valid_ymd_bounds [OF v]
  from match_date_then [OF b(1-4) match_eps, of sep y "[]"]
  have m: "re_match (date_then sep Eps) (sep_form sep y m d)
      = Some ([(CHR ''Y'', zfill4 y), (CHR ''m'', zfill2 m), (CHR ''d'', zfill2 d)], [])"
    by simp
  have dt: "datetime_new y m d 0 0 0 = Inr (Datetime y m d 0 0 0)"
    using v by (simp add: datetime_new_def valid_ymd_def)
  show ?thesis
    unfolding strptime_def p
    by (simp add: m bind_err_def field_def py_int_zfill2 py_int_zfill4 b(5-7) dt)
qed

lemma strptime_date_unconverted:
  assumes v: "valid_ymd y m d" and p: "pattern fmt = Some (date_then sep Eps)" and t: "t \<noteq> []"
  shows "strptime (sep_form sep y m d @ t) fmt = Inl (Unconverted t)"
proof -
  note b = valid_ymd_bounds [OF v]
  from match_date_then [OF b(1-4) match_eps, of sep y t]
  have m: "re_match (date_then sep Eps) (sep_form sep y m d @ t)
      = Some ([(CHR ''Y'', zfill4 y), (CHR ''m'', zfill2 m), (CHR ''d'', zfill2 d)], t)"
    by simp
  show ?thesis unfolding strptime_def p using t by (simp add: m)
qed

lemma strptime_no_match:
  assumes p: "pattern fmt = Some (date_then sep r)" and c: "lower_ascii c \<noteq> lower_ascii sep"
  shows "strptime (zfill4 y @ c # rest) fmt = Inl (No_match (zfill4 y @ c # rest) fmt)"
  unfolding strptime_def p by (simp add: no_match_date_then [OF c])

lemma match_plus_space:
  "re_match (Plus Space) (32 # zfill2 n @ rest) = Some ([], zfill2 n @ rest)"
proof -
  have "\<not> isspace_char (48 + n div 10 mod 10)"
    by (rule not_space_ascii) (simp add: ascii_digit_def)
  moreover have "isspace_char 32"
    by (simp add: isspace_char_def in_ranges_def space_ranges_def)
  ultimately show ?thesis by (simp add: re_match_def zfill2_def)
qed

lemma match_hm:
  assumes "hh \<le> 23" "mi \<le> 59" and r: "re_match r t = Some (g, t')"
  shows "re_match (hm_rx 32 r) (hm_form hh mi @ t)
     = Some ([(CHR ''H'', zfill2 hh), (CHR ''M'', zfill2 mi)] @ g, t')"
proof -
  note mm = match_seq [OF match_M_zfill [OF assms(2)] r]
  note mc = match_seq [OF match_chr mm]
  note mh = match_seq [OF match_H_zfill [OF assms(1)] mc]
  note ms = match_seq [OF match_plus_space mh]
  from ms show ?thesis by (simp add: hm_rx_def hm_form_def)
qed

lemma match_s:
  assumes "ss \<le> 59"
  shows "re_match s_rx ([58] @ zfill2 ss) = Some ([(CHR ''S'', zfill2 ss)], [])"
proof -
  note ms = match_seq [OF match_S_zfill [OF assms] match_eps]
  note mc = match_seq [OF match_chr ms]
  from mc [of 58 "[]"] show ?thesis by (simp add: s_rx_def)
qed

lemma strptime_hm_ok:
  assumes v: "valid_ymd y m d" and h: "hh \<le> 23" "mi \<le> 59"
      and p: "pattern fmt = Some (date_then sep (hm_rx 32 Eps))"
  shows "strptime (sep_form sep y m d @ hm_form hh mi) fmt = Inr (Datetime y m d hh mi 0)"
proof -
  note b = valid_ymd_bounds [OF v]
  from match_date_then [OF b(1-4) match_hm [OF h match_eps [of "[]"]], of sep y]
  have m: "re_match (date_then sep (hm_rx 32 Eps)) (sep_form sep y m d @ hm_form hh mi)
      = Some ([(CHR ''Y'', zfill4 y), (CHR ''m'', zfill2 m), (CHR ''d'', zfill2 d),
               (CHR ''H'', zfill2 hh), (CHR ''M'', zfill2 mi)], [])"
    by simp
  from h have hb: "hh < 100" "mi < 100" by simp_all
  have dt: "datetime_new y m d hh mi 0 = Inr (Datetime y m d hh mi 0)"
    using v h by (simp add: datetime_new_def valid_ymd_def)
  show ?thesis
    unfolding strptime_def p
    by (simp add: m bind_err_def field_def py_int_zfill2 py_int_zfill4 b(5-7) hb dt)
qed

lemma strptime_hm_unconverted:
  assumes v: "valid_ymd y m d" and h: "hh \<le> 23" "mi \<le> 59"
      and p: "pattern fmt = Some (date_then sep (hm_rx 32 Eps))"
  shows "strptime (sep_form sep y m d @ hms_form hh mi ss) fmt = Inl (Unconverted ([58] @ zfill2 ss))"
proof -
  note b = valid_ymd_bounds [OF v]
  from match_date_then [OF b(1-4) match_hm [OF h match_eps [of "[58] @ zfill2 ss"]], of sep y]
  have m: "re_match (date_then sep (hm_rx 32 Eps)) (sep_form sep y m d @ hms_form hh mi ss)
      = Some ([(CHR ''Y'', zfill4 y), (CHR ''m'', zfill2 m), (CHR ''d'', zfill2 d),
               (CHR ''H'', zfill2 hh), (CHR ''M'', zfill2 mi)], [58] @ zfill2 ss)"
    by (simp add: hms_form_def)
  show ?thesis unfolding strptime_def p by (simp add: m)
qed

lemma strptime_hms_ok:
  assumes v: "valid_ymd y m d" and h: "hh \<le> 23" "mi \<le> 59" "ss \<le> 59"
      and p: "pattern fmt = Some (date_then sep (hm_rx 32 s_rx))"
  shows "strptime (sep_form sep y m d @ hms_form hh mi ss) fmt = Inr (Datetime y m d hh mi ss)"
proof -
  note b = valid_ymd_bounds [OF v]
  from match_date_then [OF b(1-4) match_hm [OF h(1,2) match_s [OF h(3)]], of sep y]
  have m: "re_match (date_then sep (hm_rx 32 s_rx)) (sep_form sep y m d @ hms_form hh mi ss)
      = Some ([(CHR ''Y'', zfill4 y), (CHR ''m'', zfill2 m), (CHR ''d'', zfill2 d),
               (CHR ''H'', zfill2 hh), (CHR ''M'', zfill2 mi), (CHR ''S'', zfill2 ss)], [])"
    by (simp add: hms_form_def)
  from h have hb: "hh < 100" "mi < 100" "ss < 100" by simp_all
  have dt: "datetime_new y m d hh mi ss = Inr (Datetime y m d hh mi ss)"
    using v h by (simp add: datetime_new_def valid_ymd_def)
  show ?thesis
    unfolding strptime_def p
    by (simp add: m bind_err_def field_def py_int_zfill2 py_int_zfill4 b(5-7) hb dt)
qed

text \<open>A format with another separator does not match a separator form.\<close>

lemma strptime_other_separator:
  assumes p: "pattern fmt = Some (date_then k r)" and c: "lower_ascii sep \<noteq> lower_ascii k"
  shows "strptime (sep_form sep y m d) fmt = Inl (No_match (sep_form sep y m d) fmt)"
    "strptime (sep_form sep y m d @ t) fmt = Inl (No_match (sep_form sep y m d @ t) fmt)"
  using strptime_no_match [OF p c, of y "zfill2 m @ [sep] @ zfill2 d"]
    strptime_no_match [OF p c, of y "zfill2 m @ [sep] @ zfill2 d @ t"]
  by (simp_all add: sep_form_def)

lemma strftime_four_digit_year:
  assumes "1000 \<le> y"
  shows "strftime_Ymd (Datetime y m d hh mi ss) = compact y m d"
  using assms by (simp add: strftime_Ymd_def year_str_def compact_def)

lemma strip_digit_ends:
  assumes "s = a # t" "ascii_digit a" "ascii_digit (last s)"
  shows "strip s = s"
  using assms by (intro strip_id) (simp_all add: not_space_ascii)

lemma forms_strip:
  "strip (sep_form sep y m d) = sep_form sep y m d"
  "strip (sep_form sep y m d @ hm_form hh mi) = sep_form sep y m d @ hm_form hh mi"
  "strip (sep_form sep y m d @ hms_form hh mi ss) = sep_form sep y m d @ hms_form hh mi ss"
  by (rule strip_digit_ends [where a = "48 + y div 1000 mod 10"];
      simp add: sep_form_def hm_form_def hms_form_def zfill4_def zfill2_def ascii_digit_def)+

lemma forms_length:
  "length (sep_form sep y m d) = 10"
  "length (sep_form sep y m d @ hm_form hh mi) = 16"
  "length (sep_form sep y m d @ hms_form hh mi ss) = 19"
  by (simp_all add: sep_form_def hm_form_def hms_form_def zfill4_def zfill2_def)

lemma forms_not_empty:
  "sep_form sep y m d \<noteq> []"
  by (simp add: sep_form_def zfill4_def)

lemmas date_ok = strptime_date_ok [OF _ pattern_dates(1)] strptime_date_ok [OF _ pattern_dates(2)]
  strptime_date_ok [OF _ pattern_dates(3)]

lemmas date_unconverted = strptime_date_unconverted [OF _ pattern_dates(1)]
  strptime_date_unconverted [OF _ pattern_dates(2)] strptime_date_unconverted [OF _ pattern_dates(3)]

lemmas other_separator = strptime_other_separator [OF pattern_dates(1)]
  strptime_other_separator [OF pattern_dates(2)] strptime_other_separator [OF pattern_dates(3)]
  strptime_other_separator [OF pattern_times(1)] strptime_other_separator [OF pattern_times(2)]
  strptime_other_separator [OF pattern_times(3)] strptime_other_separator [OF pattern_times(4)]
  strptime_other_separator [OF pattern_times(5)] strptime_other_separator [OF pattern_times(6)]

lemmas hm_ok = strptime_hm_ok [OF _ _ _ pattern_times(1)] strptime_hm_ok [OF _ _ _ pattern_times(3)]
  strptime_hm_ok [OF _ _ _ pattern_times(5)]

lemmas hm_unconverted = strptime_hm_unconverted [OF _ _ _ pattern_times(1)]
  strptime_hm_unconverted [OF _ _ _ pattern_times(3)]
  strptime_hm_unconverted [OF _ _ _ pattern_times(5)]

lemmas hms_ok = strptime_hms_ok [OF _ _ _ _ pattern_times(2)]
  strptime_hms_ok [OF _ _ _ _ pattern_times(4)] strptime_hms_ok [OF _ _ _ _ pattern_times(6)]

lemma try_dates:
  assumes v: "valid_ymd y m d" and sep: "sep = 45 \<or> sep = 47 \<or> sep = 46"
  shows "try_formats (sep_form sep y m d) date_formats = Some (strftime_Ymd (Datetime y m d 0 0 0))"
  using sep
  by (elim disjE) (simp_all add: date_formats_def date_ok other_separator lower_ascii_def v)

lemma try_dates_with_time:
  assumes v: "valid_ymd y m d" and sep: "sep = 45 \<or> sep = 47 \<or> sep = 46" and t: "t \<noteq> []"
  shows "try_formats (sep_form sep y m d @ t) date_formats = None"
  using sep
  by (elim disjE) (simp_all add: date_formats_def date_unconverted other_separator lower_ascii_def v t)

lemma hm_form_not_empty: "hm_form hh mi \<noteq> []" "hms_form hh mi ss \<noteq> []"
  by (simp_all add: hm_form_def hms_form_def)

lemma try_times_hm:
  assumes v: "valid_ymd y m d" and sep: "sep = 45 \<or> sep = 47 \<or> sep = 46"
      and h: "hh \<le> 23" "mi \<le> 59"
  shows "try_formats (sep_form sep y m d @ hm_form hh mi) time_formats
     = Some (strftime_Ymd (Datetime y m d hh mi 0))"
  using sep
  by (elim disjE) (simp_all add: time_formats_def hm_ok other_separator lower_ascii_def v h)

lemma try_times_hms:
  assumes v: "valid_ymd y m d" and sep: "sep = 45 \<or> sep = 47 \<or> sep = 46"
      and h: "hh \<le> 23" "mi \<le> 59" "ss \<le> 59"
  shows "try_formats (sep_form sep y m d @ hms_form hh mi ss) time_formats
     = Some (strftime_Ymd (Datetime y m d hh mi ss))"
  using sep
  by (elim disjE)
    (simp_all add: time_formats_def hm_unconverted hms_ok other_separator lower_ascii_def v h)

lemma normalize_sep_form:
  assumes v: "valid_ymd y m d" and y: "1000 \<le> y" and sep: "sep = 45 \<or> sep = 47 \<or> sep = 46"
  shows "to_yyyymmdd (sep_form sep y m d) = Inr (compact y m d)"
  unfolding to_yyyymmdd_def forms_strip Let_def
  by (simp add: forms_not_empty forms_length try_dates [OF v sep] strftime_four_digit_year [OF y])

lemma normalize_hm_form:
  assumes v: "valid_ymd y m d" and y: "1000 \<le> y" and sep: "sep = 45 \<or> sep = 47 \<or> sep = 46"
      and h: "hh \<le> 23" "mi \<le> 59"
  shows "to_yyyymmdd (sep_form sep y m d @ hm_form hh mi) = Inr (compact y m d)"
  unfolding to_yyyymmdd_def forms_strip Let_def
  by (simp add: forms_not_empty forms_length hm_form_not_empty
      try_dates_with_time [OF v sep] try_times_hm [OF v sep h] strftime_four_digit_year [OF y])

lemma normalize_hms_form:
  assumes v: "valid_ymd y m d" and y: "1000 \<le> y" and sep: "sep = 45 \<or> sep = 47 \<or> sep = 46"
      and h: "hh \<le> 23" "mi \<le> 59" "ss \<le> 59"
  shows "to_yyyymmdd (sep_form sep y m d @ hms_form hh mi ss) = Inr (compact y m d)"
  unfolding to_yyyymmdd_def forms_strip Let_def
  by (simp add: forms_not_empty forms_length hm_form_not_empty
      try_dates_with_time [OF v sep] try_times_hms [OF v sep h] strftime_four_digit_year [OF y])

lemma normalize_compact_form:
  assumes v: "valid_ymd y m d"
  shows "to_yyyymmdd (compact y m d) = Inr (compact y m d)"
proof -
  note b = valid_ymd_bounds [OF v]
  from b(5) obtain a1 a2 a3 a4 where ydig: "a1 < 10" "a2 < 10" "a3 < 10" "a4 < 10"
    "y = 1000 * a1 + 100 * a2 + 10 * a3 + a4" "zfill4 y = [48 + a1, 48 + a2, 48 + a3, 48 + a4]"
    by (rule zfill4_split)
  from b(6) obtain m1 m2 where mdig: "m1 < 10" "m2 < 10" "m = 10 * m1 + m2"
    "zfill2 m = [48 + m1, 48 + m2]" by (rule zfill2_split)
  from b(7) obtain d1 d2 where ddig: "d1 < 10" "d2 < 10" "d = 10 * d1 + d2"
    "zfill2 d = [48 + d1, 48 + d2]" by (rule zfill2_split)
  have c: "compact y m d = [48 + a1, 48 + a2, 48 + a3, 48 + a4, 48 + m1, 48 + m2, 48 + d1, 48 + d2]"
    by (simp add: compact_def ydig(6) mdig(4) ddig(4))
  have "to_yyyymmdd [48 + a1, 48 + a2, 48 + a3, 48 + a4, 48 + m1, 48 + m2, 48 + d1, 48 + d2]
      = Inr [48 + a1, 48 + a2, 48 + a3, 48 + a4, 48 + m1, 48 + m2, 48 + d1, 48 + d2]"
    using ydig(1-4) mdig(1,2) ddig(1,2) v
    by (intro to_yyyymmdd_compact) (simp_all add: ascii_digit_def ydig(5) mdig(3) ddig(3))
  with c show ?thesis by simp
qed

lemma space_cases:
  "isspace_char c \<Longrightarrow>
     c \<le> 32 \<or> c = 133 \<or> c = 160 \<or> c = 5760 \<or> (8192 \<le> c \<and> c \<le> 8287) \<or> c = 12288"
  by (auto simp add: isspace_char_def in_ranges_def space_ranges_def)

lemma decimal_value_gaps:
  "c \<le> 32 \<Longrightarrow> decimal_value c = None"
  "8192 \<le> c \<Longrightarrow> c \<le> 8287 \<Longrightarrow> decimal_value c = None"
  "decimal_value 133 = None" "decimal_value 160 = None" "decimal_value 5760 = None"
  "decimal_value 12288 = None"
  by (simp_all add: decimal_value_def decimal_blocks_def)

lemma space_not_decimal: "isspace_char c \<Longrightarrow> \<not> isdecimal_char c"
  using space_cases [of c] by (auto simp add: isdecimal_char_def decimal_value_gaps)

lemma syllables:
  "\<not> isspace_char nyeon" "\<not> isspace_char wol" "\<not> isspace_char il"
  "\<not> isdecimal_char nyeon" "\<not> isdecimal_char wol" "\<not> isdecimal_char il"
  "\<not> isdigit_char nyeon"
  by (simp_all add: nyeon_def wol_def il_def isspace_char_def in_ranges_def space_ranges_def
      isdecimal_char_def decimal_value_def decimal_blocks_def isdigit_char_def
      other_digit_ranges_def)

lemma space_not_separator:
  "isspace_char c \<Longrightarrow> lower_ascii c \<noteq> 45 \<and> lower_ascii c \<noteq> 46 \<and> lower_ascii c \<noteq> 47"
  using space_cases [of c] by (auto simp add: lower_ascii_def)

lemma in_class_Space: "in_class Space = isspace_char"
  by (rule ext) simp

lemma match_star_space:
  assumes "list_all isspace_char w" and "t \<noteq> []" and "\<not> isspace_char (hd t)"
  shows "re_match (Star Space) (w @ t) = Some ([], t)"
proof -
  from assms(2,3) have "takeWhile isspace_char t = []" by (cases t) simp_all
  with assms(1) have "takeWhile isspace_char (w @ t) = w"
    by (simp add: list_all_iff)
  then show ?thesis by (simp add: re_match_def in_class_Space)
qed

lemma py_int1: "ascii_digit a \<Longrightarrow> py_int [a] = Some (a - 48)"
proof -
  assume a: "ascii_digit a"
  then have "strip [a] = [a]" by (intro strip_id) (simp_all add: not_space_ascii)
  with a show ?thesis by (simp add: py_int_def decimal_value_ascii)
qed

lemma text_cases:
  assumes "n < 100" and "t = short n \<or> t = zfill2 n"
  obtains a where "t = [a]" "ascii_digit a" "py_int t = Some n"
  | a b where "t = [a, b]" "ascii_digit a" "ascii_digit b" "py_int t = Some n"
proof (cases "t = zfill2 n")
  case True
  from assms(1) obtain q r where d: "q < 10" "r < 10" "n = 10 * q + r" "zfill2 n = [48 + q, 48 + r]"
    by (rule zfill2_split)
  show ?thesis
  proof (rule that(2))
    show "t = [48 + q, 48 + r]" using True d(4) by simp
    show "ascii_digit (48 + q)" "ascii_digit (48 + r)" using d(1,2) by (simp_all add: ascii_digit_def)
    show "py_int t = Some n" using True py_int_zfill2 [OF assms(1)] by simp
  qed
next
  case False
  with assms(2) have t: "t = short n" and n: "n < 10" by (auto simp add: short_def split: if_splits)
  show ?thesis
  proof (rule that(1))
    show "t = [48 + n]" using t n by (simp add: short_def)
    show a: "ascii_digit (48 + n)" using n by (simp add: ascii_digit_def)
    show "py_int t = Some n" using t n py_int1 [OF a] by (simp add: short_def)
  qed
qed

lemma match_text:
  assumes "n < 100" and "t = short n \<or> t = zfill2 n" and "t' \<noteq> []" and "\<not> isdecimal_char (hd t')"
  shows "re_match (Grp c (Alt (Seq (One Digit) (One Digit)) (One Digit))) (t @ t') = Some ([(c, t)], t')"
  using assms(1,2)
proof (cases rule: text_cases)
  case (1 a)
  with assms(3,4) show ?thesis
    by (cases t') (simp_all add: re_match_def isdecimal_ascii)
next
  case (2 a b)
  then show ?thesis by (simp add: re_match_def isdecimal_ascii)
qed

lemma match_year_group:
  "re_match (Grp c (seqs [One Digit, One Digit, One Digit, One Digit])) (zfill4 y @ rest)
     = Some ([(c, zfill4 y)], rest)"
  by (simp add: zfill4_def re_match_def isdecimal_ascii ascii_digit_def)

lemma match_syllable: "re_match (One (Chr k)) (k # rest) = Some ([], rest)"
  by (simp add: re_match_def)

lemma text_not_empty:
  assumes "n < 100" and "t = short n \<or> t = zfill2 n"
  shows "t \<noteq> []" "\<not> isspace_char (hd t)"
  using assms(1,2) by (cases rule: text_cases; simp add: not_space_ascii)+

lemma after_spaces:
  assumes "list_all isspace_char w" and "\<not> isdecimal_char k"
  shows "w @ k # rest \<noteq> []" "\<not> isdecimal_char (hd (w @ k # rest))"
  using assms by (cases w; simp add: space_not_decimal)+

lemma match_korean:
  assumes ws: "list_all isspace_char w1" "list_all isspace_char w2" "list_all isspace_char w3"
      "list_all isspace_char w4" "list_all isspace_char w5"
    and m: "m < 100" "mt = short m \<or> mt = zfill2 m"
    and d: "d < 100" "dt = short d \<or> dt = zfill2 d"
  shows "re_match korean_rx (korean_form w1 w2 w3 w4 w5 y mt dt)
     = Some ([(CHR ''1'', zfill4 y), (CHR ''2'', mt), (CHR ''3'', dt)], [])"
proof -
  let ?G = "\<lambda>c. Grp c (Alt (Seq (One Digit) (One Digit)) (One Digit))"
  note s11 = match_seq [OF match_syllable match_eps [of "[]"], of il]
  have s10: "re_match (Seq (Star Space) (Seq (One (Chr il)) Eps)) (w5 @ [il]) = Some ([], [])"
    using match_seq [OF match_star_space [OF ws(5), of "[il]"] s11] syllables by simp
  have s9: "re_match (Seq (?G CHR ''3'') (Seq (Star Space) (Seq (One (Chr il)) Eps)))
      (dt @ w5 @ [il]) = Some ([(CHR ''3'', dt)], [])"
    using match_seq [OF match_text [OF d, of "w5 @ [il]" "CHR ''3''"] s10]
      after_spaces [OF ws(5), of il "[]"] syllables by simp
  let ?R9 = "Seq (?G CHR ''3'') (Seq (Star Space) (Seq (One (Chr il)) Eps))"
  have s8: "re_match (Seq (Star Space) ?R9) (w4 @ dt @ w5 @ [il]) = Some ([(CHR ''3'', dt)], [])"
    using match_seq [OF match_star_space [OF ws(4), of "dt @ w5 @ [il]"] s9]
      text_not_empty [OF d] by simp
  have s7: "re_match (Seq (One (Chr wol)) (Seq (Star Space) ?R9)) (wol # w4 @ dt @ w5 @ [il])
      = Some ([(CHR ''3'', dt)], [])"
    using match_seq [OF match_syllable s8] by simp
  let ?R7 = "Seq (One (Chr wol)) (Seq (Star Space) ?R9)"
  have s6: "re_match (Seq (Star Space) ?R7) (w3 @ wol # w4 @ dt @ w5 @ [il])
      = Some ([(CHR ''3'', dt)], [])"
    using match_seq [OF match_star_space [OF ws(3), of "wol # w4 @ dt @ w5 @ [il]"] s7]
      syllables by simp
  have s5: "re_match (Seq (?G CHR ''2'') (Seq (Star Space) ?R7))
      (mt @ w3 @ wol # w4 @ dt @ w5 @ [il]) = Some ([(CHR ''2'', mt), (CHR ''3'', dt)], [])"
    using match_seq [OF match_text [OF m, of "w3 @ wol # w4 @ dt @ w5 @ [il]" "CHR ''2''"] s6]
      after_spaces [OF ws(3), of wol "w4 @ dt @ w5 @ [il]"] syllables by simp
  let ?R5 = "Seq (?G CHR ''2'') (Seq (Star Space) ?R7)"
  have s4: "re_match (Seq (Star Space) ?R5) (w2 @ mt @ w3 @ wol # w4 @ dt @ w5 @ [il])
      = Some ([(CHR ''2'', mt), (CHR ''3'', dt)], [])"
    using match_seq [OF match_star_space [OF ws(2), of "mt @ w3 @ wol # w4 @ dt @ w5 @ [il]"] s5]
      text_not_empty [OF m] by simp
  have s3: "re_match (Seq (One (Chr nyeon)) (Seq (Star Space) ?R5))
      (nyeon # w2 @ mt @ w3 @ wol # w4 @ dt @ w5 @ [il])
      = Some ([(CHR ''2'', mt), (CHR ''3'', dt)], [])"
    using match_seq [OF match_syllable s4] by simp
  let ?R3 = "Seq (One (Chr nyeon)) (Seq (Star Space) ?R5)"
  have s2: "re_match (Seq (Star Space) ?R3)
      (w1 @ nyeon # w2 @ mt @ w3 @ wol # w4 @ dt @ w5 @ [il])
      = Some ([(CHR ''2'', mt), (CHR ''3'', dt)], [])"
    using match_seq [OF match_star_space [OF ws(1),
          of "nyeon # w2 @ mt @ w3 @ wol # w4 @ dt @ w5 @ [il]"] s3]
      syllables by simp
  have s1: "re_match (Seq (Grp CHR ''1'' (seqs [One Digit, One Digit, One Digit, One Digit]))
        (Seq (Star Space) ?R3))
      (zfill4 y @ w1 @ nyeon # w2 @ mt @ w3 @ wol # w4 @ dt @ w5 @ [il])
      = Some ([(CHR ''1'', zfill4 y), (CHR ''2'', mt), (CHR ''3'', dt)], [])"
    using match_seq [OF match_year_group s2] by simp
  then show ?thesis by (simp add: korean_rx_def korean_form_def)
qed

lemma re_search_at_start:
  assumes "s \<noteq> []" and "re_match r s = Some (g, rest)"
  shows "re_search r s = Some g"
  using assms by (cases s) simp_all

lemma try_formats_none:
  "\<forall>fmt \<in> set fmts. \<exists>e. strptime s fmt = Inl e \<Longrightarrow> try_formats s fmts = None"
  by (induction fmts) auto

lemma formats_shape:
  "\<forall>fmt \<in> set (date_formats @ time_formats).
     \<exists>k r. pattern fmt = Some (date_then k r) \<and> (k = 45 \<or> k = 46 \<or> k = 47)"
  by (simp del: pattern.simps add: date_formats_def time_formats_def pattern_dates pattern_times)
    blast

lemma no_format_without_separator:
  assumes "lower_ascii c \<noteq> 45" "lower_ascii c \<noteq> 46" "lower_ascii c \<noteq> 47"
  shows "try_formats (zfill4 y @ c # rest) date_formats = None"
    "try_formats (zfill4 y @ c # rest) time_formats = None"
proof -
  have "\<exists>e. strptime (zfill4 y @ c # rest) fmt = Inl e"
    if "fmt \<in> set (date_formats @ time_formats)" for fmt
  proof -
    from formats_shape that obtain k r where p: "pattern fmt = Some (date_then k r)"
      and k: "k = 45 \<or> k = 46 \<or> k = 47" by blast
    from k assms have "lower_ascii c \<noteq> lower_ascii k" by (auto simp add: lower_ascii_def)
    from strptime_no_match [OF p this] show ?thesis by blast
  qed
  then show "try_formats (zfill4 y @ c # rest) date_formats = None"
    "try_formats (zfill4 y @ c # rest) time_formats = None"
    by (simp_all add: try_formats_none)
qed

lemma normalize_korean_form:
  assumes v: "valid_ymd y m d" and y: "1000 \<le> y"
    and ws: "list_all isspace_char w1" "list_all isspace_char w2" "list_all isspace_char w3"
      "list_all isspace_char w4" "list_all isspace_char w5"
    and mt: "mt = short m \<or> mt = zfill2 m" and dt: "dt = short d \<or> dt = zfill2 d"
  shows "to_yyyymmdd (korean_form w1 w2 w3 w4 w5 y mt dt) = Inr (compact y m d)"
proof -
  let ?s = "korean_form w1 w2 w3 w4 w5 y mt dt"
  note b = valid_ymd_bounds [OF v]
  obtain c rest where cr: "w1 @ nyeon # w2 @ mt @ w3 @ wol # w4 @ dt @ w5 @ [il] = c # rest"
    and c: "isspace_char c \<or> c = nyeon"
    using ws(1) by (cases w1) auto
  have shape: "?s = zfill4 y @ c # rest" using cr by (simp add: korean_form_def)
  from c have sep: "lower_ascii c \<noteq> 45" "lower_ascii c \<noteq> 46" "lower_ascii c \<noteq> 47"
    using space_not_separator [of c] by (auto simp add: nyeon_def lower_ascii_def)
  have ne: "?s \<noteq> []" by (simp add: korean_form_def zfill4_def)
  have st: "strip ?s = ?s"
  proof (rule strip_id [OF ne])
    show "\<not> isspace_char (hd ?s)"
      by (simp add: korean_form_def zfill4_def not_space_ascii ascii_digit_def)
    show "\<not> isspace_char (last ?s)" using syllables by (simp add: korean_form_def)
  qed
  have nd: "\<not> isdigit ?s"
    using syllables by (simp add: isdigit_def korean_form_def)
  note none = no_format_without_separator [OF sep, of y rest, folded shape]
  from re_search_at_start [OF ne match_korean [OF ws b(6) mt b(7) dt, of y]]
  have search: "re_search korean_rx ?s
      = Some [(CHR ''1'', zfill4 y), (CHR ''2'', mt), (CHR ''3'', dt)]" .
  have pm: "py_int mt = Some m" using b(6) mt by (cases rule: text_cases) simp_all
  have pd: "py_int dt = Some d" using b(7) dt by (cases rule: text_cases) simp_all
  have dn: "datetime_new y m d 0 0 0 = Inr (Datetime y m d 0 0 0)"
    using v by (simp add: datetime_new_def valid_ymd_def)
  have kd: "korean_date [(CHR ''1'', zfill4 y), (CHR ''2'', mt), (CHR ''3'', dt)]
      = Inr (compact y m d)"
    by (simp add: korean_date_def field_def bind_err_def py_int_zfill4 [OF b(5)] pm pd dn
        strftime_four_digit_year [OF y])
  show ?thesis
    unfolding to_yyyymmdd_def st Let_def
    by (simp add: ne nd none search kd)
qed

theorem normalize_forms_agree:
  assumes "valid_ymd y m d" and "1000 \<le> y"
    and "sep = 45 \<or> sep = 47 \<or> sep = 46"
    and "hh \<le> 23" "mi \<le> 59" "ss \<le> 59"
    and "list_all isspace_char w1" "list_all isspace_char w2" "list_all isspace_char w3"
      "list_all isspace_char w4" "list_all isspace_char w5"
    and "mt = short m \<or> mt = zfill2 m" and "dt = short d \<or> dt = zfill2 d"
  shows "to_yyyymmdd (compact y m d) = Inr (compact y m d)
       \<and> to_yyyymmdd (sep_form sep y m d) = Inr (compact y m d)
       \<and> to_yyyymmdd (sep_form sep y m d @ hm_form hh mi) = Inr (compact y m d)
       \<and> to_yyyymmdd (sep_form sep y m d @ hms_form hh mi ss) = Inr (compact y m d)
       \<and> to_yyyymmdd (korean_form w1 w2 w3 w4 w5 y mt dt) = Inr (compact y m d)"
  using normalize_compact_form [OF assms(1)] normalize_sep_form [OF assms(1-3)]
    normalize_hm_form [OF assms(1-5)] normalize_hms_form [OF assms(1-6)]
    normalize_korean_form [OF assms(1,2,7-13)]
  by simp

theorem normalize_forms_agree_example:
  "to_yyyymmdd (u ''20251106'') = Inr (u ''20251106'')
   \<and> to_yyyymmdd (u ''2025-11-06'') = Inr (u ''20251106'')
   \<and> to_yyyymmdd (u ''2025/11/06 09:30'') = Inr (u ''20251106'')
   \<and> to_yyyymmdd (u ''2025.11.06 09:30:15'') = Inr (u ''20251106'')
   \<and> to_yyyymmdd (u ''2025'' @ [nyeon] @ u '' 11'' @ [wol] @ u '' 6'' @ [il]) = Inr (u ''20251106'')"
proof -
  have v: "valid_ymd 2025 11 6" by (simp add: valid_ymd_def days_in_month_def)
  have w: "list_all isspace_char []" "list_all isspace_char [32]"
    by (simp_all add: isspace_char_def in_ranges_def space_ranges_def)
  have t: "zfill2 11 = short 11 \<or> zfill2 11 = zfill2 11" "short 6 = short 6 \<or> short 6 = zfill2 6"
    by simp_all
  from normalize_forms_agree [OF v _ disjI1 [OF refl], of 9 30 0 "[]" "[32]" "[]" "[32]" "[]"
      "zfill2 11" "short 6"]
    normalize_forms_agree [OF v _ disjI2 [OF disjI1 [OF refl]], of 9 30 0 "[]" "[32]" "[]" "[32]" "[]"
      "zfill2 11" "short 6"]
    normalize_forms_agree [OF v _ disjI2 [OF disjI2 [OF refl]], of 9 30 15 "[]" "[32]" "[]" "[32]" "[]"
      "zfill2 11" "short 6"]
    w
  show ?thesis
    by (simp add: compact_def sep_form_def hm_form_def hms_form_def korean_form_def short_def
        zfill2_def zfill4_def u_def ord_def)
qed

section \<open>The grade index in the aggregator\<close>

lemma schedule_loop_rows:
  assumes g: "0 \<le> g" "g \<le> 5" and vg: "length (valid_grade sch) = 6"
    and i: "i < length (school_name info)"
  shows "\<forall>j \<in> set js. j < length (valid_grade sch ! nat g) \<and> j < length (event_date sch)
            \<and> j < length (event_name sch) \<and> j < length (event_type sch)
            \<and> j < length (event_content sch) \<Longrightarrow>
     schedule_loop info (int i) sch g js
       = Inr (map (\<lambda>j. Row (school_name info ! i) (event_date sch ! j) (event_name sch ! j)
                         (event_type sch ! j) (event_content sch ! j) (g + 1))
                (filter (\<lambda>j. valid_grade sch ! nat g ! j) js))"
proof (induction js)
  case Nil
  then show ?case by simp
next
  case (Cons j js)
  from g vg have flags: "py_index (valid_grade sch) g = Inr (valid_grade sch ! nat g)"
    by (simp add: py_index_def)
  from Cons.prems have b: "j < length (valid_grade sch ! nat g)" "j < length (event_date sch)"
    "j < length (event_name sch)" "j < length (event_type sch)" "j < length (event_content sch)"
    by simp_all
  from Cons.prems have rest: "\<forall>j \<in> set js. j < length (valid_grade sch ! nat g)
      \<and> j < length (event_date sch) \<and> j < length (event_name sch)
      \<and> j < length (event_type sch) \<and> j < length (event_content sch)" by simp
  have row: "event_row info (int i) sch g (int j)
      = Inr (Row (school_name info ! i) (event_date sch ! j) (event_name sch ! j)
               (event_type sch ! j) (event_content sch ! j) (g + 1))"
    using i b by (simp add: event_row_def py_index_def bind_err_def)
  show ?case
    using flags b(1) row Cons.IH [OF rest]
    by (simp add: py_index_def bind_err_def)
qed

lemma grade_loop_rows:
  assumes vg: "length (valid_grade sch) = 6" and i: "i < length (school_name info)"
    and len: "length (event_date sch) = schedule_num sch" "length (event_name sch) = schedule_num sch"
      "length (event_type sch) = schedule_num sch" "length (event_content sch) = schedule_num sch"
      "\<forall>g<6. length (valid_grade sch ! g) = schedule_num sch"
  shows "\<forall>g \<in> set gs. 0 \<le> g \<and> g \<le> 5 \<Longrightarrow>
     grade_loop info (int i) sch gs
       = Inr (concat (map (rows_of_index (school_name info ! i) sch) gs))"
proof (induction gs)
  case Nil
  then show ?case by simp
next
  case (Cons g gs)
  from Cons.prems have g: "0 \<le> g" "g \<le> 5" and rest: "\<forall>g \<in> set gs. 0 \<le> g \<and> g \<le> 5"
    by simp_all
  from g have "nat g < 6" by arith
  with len(5) have l: "length (valid_grade sch ! nat g) = schedule_num sch" by blast
  have "\<forall>j \<in> set [0 ..< schedule_num sch]. j < length (valid_grade sch ! nat g)
      \<and> j < length (event_date sch) \<and> j < length (event_name sch)
      \<and> j < length (event_type sch) \<and> j < length (event_content sch)"
    using l len(1-4) by simp
  from schedule_loop_rows [OF g vg i this]
  have one: "schedule_loop info (int i) sch g [0 ..< schedule_num sch]
      = Inr (rows_of_index (school_name info ! i) sch g)"
    by (simp add: rows_of_index_def)
  show ?case using one Cons.IH [OF rest] by (simp add: bind_err_def)
qed

lemma match_loop_result:
  "\<forall>i \<in> set idxs. i < length (org_name info) \<Longrightarrow>
     match_loop e info from_date to_date grades target_org idxs
       = (case find (\<lambda>i. accepts target_org (org_name info ! i)) idxs of
            None \<Rightarrow> ([], Inr [])
          | Some i \<Rightarrow> query_match e info from_date to_date grades i)"
proof (induction idxs)
  case Nil
  then show ?case by simp
next
  case (Cons idx idxs)
  from Cons.prems have b: "idx < length (org_name info)"
    and rest: "\<forall>i \<in> set idxs. i < length (org_name info)" by simp_all
  show ?case
  proof (cases target_org)
    case None
    then show ?thesis by (simp add: accepts_def)
  next
    case (Some t)
    show ?thesis
    proof (cases "org_name info ! idx = PStr t")
      case True
      with Some b show ?thesis by (simp add: accepts_def py_index_def)
    next
      case False
      with Some b Cons.IH [OF rest] show ?thesis by (simp add: accepts_def py_index_def)
    qed
  qed
qed

lemma first_accepted_in_range:
  assumes "first_accepted target_org orgs = Some i"
  shows "i < length orgs"
proof -
  from assms have "i \<in> set [0 ..< length orgs]"
    unfolding first_accepted_def by (auto simp add: find_Some_iff)
  then show ?thesis by simp
qed

text \<open>The result of the aggregator once the school and its schedule are there.\<close>

lemma get_school_timetable_rows:
  assumes info: "get_school_info e name = (tr, Inr info)" "valid info" "0 < school_num info"
    and acc: "first_accepted target_org (org_name info) = Some i"
    and sch: "get_school_schedule e (school_code info ! i) (org_code info ! i) from_date to_date
                = (tr', Inr sch)" "valid sch" "0 < schedule_num sch"
  shows "get_school_timetable e name from_date to_date grade target_org
           = (tr @ tr',
              Inr (concat (map (\<lambda>g. rows_of_index (school_name info ! i) sch (clamp (g - 1) 0 5))
                             grade)))"
proof -
  have tg: "target_grade grade = map (\<lambda>g. clamp (g - 1) 0 5) grade"
    by (simp add: target_grade_def grade_index_clamp)
  from get_school_info_valid [OF info(1,2)] obtain data
    where data: "info = parse_school_info data" by blast
  from parse_school_info_lengths [of data] info(2) data
  have len: "length (school_name info) = school_num info"
    "length (school_code info) = school_num info"
    "length (org_name info) = school_num info" "length (org_code info) = school_num info"
    by simp_all
  from first_accepted_in_range [OF acc] len have i: "i < school_num info" by simp
  have "\<forall>k \<in> set [0 ..< school_num info]. k < length (org_name info)" using len by simp
  from match_loop_result [OF this, of e from_date to_date "target_grade grade" target_org] acc
  have loop: "match_loop e info from_date to_date (target_grade grade) target_org
                [0 ..< school_num info]
      = query_match e info from_date to_date (target_grade grade) i"
    by (simp add: first_accepted_def len)
  from get_school_schedule_valid [OF sch(1,2)] obtain sdata
    where sdata: "sch = parse_school_schedule sdata" by blast
  from parse_school_schedule_lengths [of sdata] sch(2) sdata
  have slen: "length (event_date sch) = schedule_num sch" "length (event_name sch) = schedule_num sch"
    "length (event_type sch) = schedule_num sch" "length (event_content sch) = schedule_num sch"
    "length (valid_grade sch) = 6" "\<forall>g<6. length (valid_grade sch ! g) = schedule_num sch"
    by simp_all
  have range: "\<forall>g \<in> set (target_grade grade). 0 \<le> g \<and> g \<le> 5"
    by (auto simp add: target_grade_def grade_index_def)
  from i len have i': "i < length (school_name info)" by simp
  from grade_loop_rows [OF slen(5) i' slen(1-4,6) range]
  have rows: "grade_loop info (int i) sch (target_grade grade)
      = Inr (concat (map (\<lambda>g. rows_of_index (school_name info ! i) sch (clamp (g - 1) 0 5)) grade))"
    by (simp add: tg o_def)
  have q: "query_match e info from_date to_date (target_grade grade) i
      = (tr', grade_loop info (int i) sch (target_grade grade))"
    using i len sch by (simp add: query_match_def py_index_def)
  have "get_school_timetable e name from_date to_date grade target_org
      = (tr @ tr', grade_loop info (int i) sch (target_grade grade))"
    using info loop q by (simp add: get_school_timetable_def)
  with rows show ?thesis by simp
qed

text \<open>The sample service, step by step.\<close>

lemma sample_lookup:
  "get_school_info (neis two_schools p) name
     = ([school_info_request (neis two_schools p) name], Inr (parse_school_info two_schools))"
  by (simp add: neis_def get_school_info_def school_info_request_def result_field_def
      dict_get_def bind_err_def two_schools_def URL_SCHOOL_INFO_def u_def ord_def)

lemma sample_info:
  "parse_school_info two_schools
     = \<lparr>valid = True, message = Success_to_find, school_num = 2,
        school_name = [PStr (u ''Hansol''), PStr (u ''Hansol'')],
        school_code = [PStr (u ''7010574''), PStr (u ''7530001'')],
        org_name = [PStr (u ''Seoul''), PStr (u ''Gyeonggi'')],
        org_code = [PStr (u ''B10''), PStr (u ''J10'')]\<rparr>"
  by (simp add: two_schools_def school_row_def info_defs)

lemma sample_fetch:
  "get_school_schedule (neis s (schedule_payload rows)) code org from_date to_date
     = ([schedule_request (neis s (schedule_payload rows)) code org from_date to_date],
        Inr (parse_school_schedule (schedule_payload rows)))"
  by (simp add: get_school_schedule_def neis_def schedule_request_def result_field_def
      dict_get_def bind_err_def schedule_payload_def URL_SCHOOL_INFO_def
      URL_SCHOOL_SCHEDULE_def u_def ord_def)

lemma sample_events:
  "parse_school_schedule (schedule_payload [founding_day, sports_day])
     = \<lparr>valid = True, message = Success_to_find, schedule_num = 2,
        event_date = [PStr (u ''20251015''), PStr (u ''20251024'')],
        event_name = [PStr (u ''Founding day''), PStr (u ''Sports day'')],
        event_type = [PStr (u ''holiday''), PStr (u ''event'')],
        event_content = [PNone, PStr (u ''relay'')],
        valid_grade = [[True, False], [True, False], [False, False], [False, False],
                       [False, False], [False, True]]\<rparr>"
  by (simp add: api_defs sports_day_def)

lemma upt_two: "[0 ..< 2] = [0, Suc 0]"
  by (simp add: upt_rec)

lemma sample_first: "first_accepted None (org_name (parse_school_info two_schools)) = Some 0"
  by (simp add: sample_info first_accepted_def accepts_def upt_two)

lemma sample_timetable:
  "get_school_timetable (neis two_schools (schedule_payload [founding_day, sports_day]))
      name from_date to_date grade None
     = ([school_info_request (neis two_schools (schedule_payload [founding_day, sports_day])) name,
         schedule_request (neis two_schools (schedule_payload [founding_day, sports_day]))
           (PStr (u ''7010574'')) (PStr (u ''B10'')) from_date to_date],
        Inr (concat (map (\<lambda>g. rows_of_index (PStr (u ''Hansol''))
                               (parse_school_schedule (schedule_payload [founding_day, sports_day]))
                               (clamp (g - 1) 0 5)) grade)))"
proof -
  have v: "valid (parse_school_info two_schools)" and n: "0 < school_num (parse_school_info two_schools)"
    by (simp_all add: sample_info)
  have sv: "valid (parse_school_schedule (schedule_payload [founding_day, sports_day]))"
    and sn: "0 < schedule_num (parse_school_schedule (schedule_payload [founding_day, sports_day]))"
    by (simp_all add: sample_events)
  from get_school_timetable_rows [OF sample_lookup v n sample_first sample_fetch sv sn,
      where grade = grade]
  show ?thesis by (simp add: sample_info)
qed

text \<open>
  C7. \<open>get_school_timetable\<close> reads the flags of every requested grade \<open>g\<close> at the index
  \<open>clamp(g - 1, 0, 5)\<close> and labels the rows with that index plus one; grade 0 gives index
  0 and grade 7 gives index 5. No grade is rejected: whenever the school is resolved and
  its schedule is fetched with events, the call returns the rows of the clamped indices,
  in the order of the requested grades, for any list of integers.
\<close>

theorem timetable_uses_clamped_index:
  assumes info: "get_school_info e name = (tr, Inr info)" "valid info" "0 < school_num info"
    and acc: "first_accepted target_org (org_name info) = Some i"
    and sch: "get_school_schedule e (school_code info ! i) (org_code info ! i) from_date to_date
                = (tr', Inr sch)" "valid sch" "0 < schedule_num sch"
  shows "target_grade grade = map (\<lambda>g. clamp (g - 1) 0 5) grade
       \<and> target_grade [0] = [0] \<and> target_grade [7] = [5]
       \<and> get_school_timetable e name from_date to_date grade target_org
           = (tr @ tr',
              Inr (concat (map (\<lambda>g. rows_of_index (school_name info ! i) sch (clamp (g - 1) 0 5))
                             grade)))"
proof -
  have tg: "target_grade grade = map (\<lambda>g. clamp (g - 1) 0 5) grade"
    by (simp add: target_grade_def grade_index_clamp)
  have ex: "target_grade [0] = [0] \<and> target_grade [7] = [5]"
    by (simp add: target_grade_def grade_index_def)
  from tg ex get_school_timetable_rows [OF assms, of grade] show ?thesis by simp
qed

text \<open>The grades 0 and 7 get the rows of the grades 1 and 6.\<close>

theorem timetable_uses_clamped_index_witness:
  "target_grade [0, 7] = [0, 5]
   \<and> get_school_timetable (neis two_schools (schedule_payload [founding_day, sports_day]))
        (u ''Hansol'') (u ''20251001'') (u ''20251030'') [0, 7] None
     = ([school_info_request (neis two_schools (schedule_payload [founding_day, sports_day]))
           (u ''Hansol''),
         schedule_request (neis two_schools (schedule_payload [founding_day, sports_day]))
           (PStr (u ''7010574'')) (PStr (u ''B10'')) (u ''20251001'') (u ''20251030'')],
        Inr [Row (PStr (u ''Hansol'')) (PStr (u ''20251015'')) (PStr (u ''Founding day''))
               (PStr (u ''holiday'')) PNone 1,
             Row (PStr (u ''Hansol'')) (PStr (u ''20251024'')) (PStr (u ''Sports day''))
               (PStr (u ''event'')) (PStr (u ''relay'')) 6])"
proof -
  have v: "valid (parse_school_info two_schools)" and n: "0 < school_num (parse_school_info two_schools)"
    by (simp_all add: sample_info)
  have sv: "valid (parse_school_schedule (schedule_payload [founding_day, sports_day]))"
    and sn: "0 < schedule_num (parse_school_schedule (schedule_payload [founding_day, sports_day]))"
    by (simp_all add: sample_events)
  from timetable_uses_clamped_index [OF sample_lookup v n sample_first sample_fetch sv sn,
      of "[0, 7]"]
  show ?thesis
    by (simp add: sample_info sample_events rows_of_index_def clamp_def upt_two)
qed

section \<open>Default grades in the tool\<close>

text \<open>
  C8. With the grade argument omitted, the tool calls \<open>get_school_timetable\<close> with the
  grades 1 to 6 exactly when the school name contains the token of the elementary school,
  and with the grades 1 to 3 otherwise (middle school, high school or no known level); the
  dates it passes are the normalized ones, and the rows that come back are its result.
\<close>

theorem default_grades_reach_aggregator:
  assumes "to_yyyymmdd from_date = Inr from_norm" and "to_yyyymmdd to_date = Inr to_norm"
  shows "default_grades name = (if contains name elementary then [1, 2, 3, 4, 5, 6] else [1, 2, 3])
       \<and> run e name from_date to_date None target_org
           = (case get_school_timetable e name from_norm to_norm
                     (if contains name elementary then [1, 2, 3, 4, 5, 6] else [1, 2, 3])
                     target_org of
                (tr, Inl x) \<Rightarrow> (tr, Inl x)
              | (tr, Inr rows) \<Rightarrow> (tr, Inr (Schedules rows)))"
proof -
  have d: "default_grades name
      = (if contains name elementary then [1, 2, 3, 4, 5, 6] else [1, 2, 3])"
    by (simp add: default_grades_def detect_elementary)
  have "run e name from_date to_date None target_org
      = (case get_school_timetable e name from_norm to_norm (default_grades name) target_org of
           (tr, Inl x) \<Rightarrow> (tr, Inl x)
         | (tr, Inr rows) \<Rightarrow> (tr, Inr (Schedules rows)))"
    using assms by (simp add: run_def bind_err_def)
  then show ?thesis unfolding d using d by simp
qed

text \<open>
  A name with the token gets the rows of the grades 1, 2 and 6 of the sample schedule; a
  name without it gets the rows of the grades 1 and 2 only.
\<close>

theorem default_grades_reach_aggregator_witness:
  "contains eunbit elementary
   \<and> run (neis two_schools (schedule_payload [founding_day, sports_day]))
        eunbit (u ''2025-10-01'') (u ''20251030'') None None
     = ([school_info_request (neis two_schools (schedule_payload [founding_day, sports_day])) eunbit,
         schedule_request (neis two_schools (schedule_payload [founding_day, sports_day]))
           (PStr (u ''7010574'')) (PStr (u ''B10'')) (u ''20251001'') (u ''20251030'')],
        Inr (Schedules
          [Row (PStr (u ''Hansol'')) (PStr (u ''20251015'')) (PStr (u ''Founding day''))
             (PStr (u ''holiday'')) PNone 1,
           Row (PStr (u ''Hansol'')) (PStr (u ''20251015'')) (PStr (u ''Founding day''))
             (PStr (u ''holiday'')) PNone 2,
           Row (PStr (u ''Hansol'')) (PStr (u ''20251024'')) (PStr (u ''Sports day''))
             (PStr (u ''event'')) (PStr (u ''relay'')) 6]))
   \<and> \<not> contains (u ''Hansol'') elementary
   \<and> run (neis two_schools (schedule_payload [founding_day, sports_day]))
        (u ''Hansol'') (u ''2025-10-01'') (u ''20251030'') None None
     = ([school_info_request (neis two_schools (schedule_payload [founding_day, sports_day]))
           (u ''Hansol''),
         schedule_request (neis two_schools (schedule_payload [founding_day, sports_day]))
           (PStr (u ''7010574'')) (PStr (u ''B10'')) (u ''20251001'') (u ''20251030'')],
        Inr (Schedules
          [Row (PStr (u ''Hansol'')) (PStr (u ''20251015'')) (PStr (u ''Founding day''))
             (PStr (u ''holiday'')) PNone 1,
           Row (PStr (u ''Hansol'')) (PStr (u ''20251015'')) (PStr (u ''Founding day''))
             (PStr (u ''holiday'')) PNone 2]))"
proof -
  have h1: "to_yyyymmdd (u ''2025-10-01'') = Inr (u ''20251001'')"
    by (simp add: string_defs normalizer_defs)
  have h2: "to_yyyymmdd (u ''20251030'') = Inr (u ''20251030'')"
    by (simp add: string_defs normalizer_defs)
  have c1: "contains eunbit elementary"
    unfolding contains_def eunbit_def by (rule sublist_append_leftI)
  have c2: "\<not> contains (u ''Hansol'') elementary"
  proof
    assume "contains (u ''Hansol'') elementary"
    then have "set elementary \<subseteq> set (u ''Hansol'')"
      unfolding contains_def by (rule set_mono_sublist)
    then show False by (simp add: elementary_def u_def ord_def)
  qed
  from default_grades_reach_aggregator [OF h1 h2, of eunbit _ None]
    default_grades_reach_aggregator [OF h1 h2, of "u ''Hansol''" _ None] c1 c2
  show ?thesis
    by (simp add: sample_timetable sample_events rows_of_index_def clamp_def upt_two)
qed

end
